theory Spec2Isabelle
  imports Complex_Main
begin

section \<open>Data model\<close>

text \<open>
  The technical-analysis module works on candles (\<open>KlineData\<close>) and produces indicator
  series, supply/demand zones and trading signals. Each TypeScript interface is a record;
  field \<open>f\<close> of an interface is written with a one-letter prefix naming the interface
  (\<open>k_close\<close> is \<open>KlineData.close\<close>, \<open>z_high\<close> is \<open>SupplyDemandZone.high\<close>,
  \<open>r_allSignals\<close> is \<open>allSignals\<close> of the object \<open>analyzeData\<close> returns, and so on),
  since several interfaces share field names.

  Numbers: a JavaScript \<open>number\<close> holding a price, a volume or an average is a \<open>real\<close>
  (a finite double, rounding ignored); a time stamp is an \<open>int\<close> (milliseconds); a period
  is a \<open>nat\<close>. The price and volume fields of a candle are strings in the source and are
  read with \<open>parseFloat\<close> wherever they are used; the record holds the parsed values.
  \<open>NaN\<close> and the infinities are not values of this model: the source computes them only
  for a period of 0 (an average over nothing), for a MACD whose fast period exceeds its
  slow period (a read before the start of an array) and for a zero denominator, and the
  theorems say where they need such inputs excluded.
\<close>

record KlineData =
  k_openTime :: int
  k_open :: real
  k_high :: real
  k_low :: real
  k_close :: real
  k_volume :: real
  k_closeTime :: int

record EMAData =
  e_timestamp :: int
  e_ema9 :: real
  e_ema20 :: real
  e_ema200 :: real

record VWAPData =
  v_timestamp :: int
  v_vwap :: real
  v_volume :: real

record MACDData =
  m_timestamp :: int
  m_macd :: real
  m_signal :: real
  m_histogram :: real

datatype zone_side = Supply | Demand
datatype zone_strength = Weak | Medium | Strong
datatype zone_pattern = RBR | DBD | DBR | RBD

record SupplyDemandZone =
  z_type :: zone_side
  z_high :: real
  z_low :: real
  z_timestamp :: int
  z_strength :: zone_strength
  z_zoneType :: zone_pattern
  z_isValid :: bool

datatype signal_side = Buy | Sell

record EMABounceSignal =
  b_timestamp :: int
  b_type :: signal_side
  b_price :: real
  b_ema9 :: real
  b_ema20 :: real
  b_ema200 :: real
  b_vwap :: real
  b_macdLine :: real
  b_macdSignal :: real
  b_bullishStack :: bool
  b_priceAboveVWAP :: bool
  b_macdBullish :: bool
  b_bounceConfirmed :: bool
  b_confidence :: real

record SupplyDemandSignal =
  s_timestamp :: int
  s_type :: signal_side
  s_price :: real
  s_zone :: SupplyDemandZone
  s_entryReason :: string
  s_stopLoss :: real
  s_takeProfit :: real
  s_riskReward :: real
  s_confidence :: real

datatype exchange = Binance | Bybit
datatype trading_type = Spot | Futures
datatype timeframe = TF_1m | TF_5m | TF_15m | TF_30m | TF_1h | TF_4h | TF_1d | TF_1w | TF_1M
datatype strategy = Ema_bounce | Supply_demand

record TradingSignal =
  t_id :: string
  t_symbol :: string
  t_exchange :: exchange
  t_tradingType :: trading_type
  t_timeframe :: timeframe
  t_timestamp :: int
  t_type :: signal_side
  t_price :: real
  t_strategy :: strategy
  t_signalData :: "EMABounceSignal + SupplyDemandSignal"
  t_isActive :: bool
  t_confidence :: real

record analysis_result =
  r_emaData :: "EMAData list"
  r_vwapData :: "VWAPData list"
  r_macdData :: "MACDData list"
  r_supplyDemandZones :: "SupplyDemandZone list"
  r_emaBounceSignals :: "EMABounceSignal list"
  r_supplyDemandSignals :: "SupplyDemandSignal list"
  r_allSignals :: "TradingSignal list"

section \<open>Array reads and number formatting\<close>

text \<open>
  A JavaScript array read outside \<open>0 .. length - 1\<close> yields \<open>undefined\<close>; \<open>js_nth\<close>
  makes that outcome a value. A comparison with \<open>undefined\<close> converts it to \<open>NaN\<close>
  and is false: \<open>js_le\<close>.
\<close>

definition js_nth :: "'a list \<Rightarrow> int \<Rightarrow> 'a option" where
  "js_nth xs i = (if 0 \<le> i \<and> i < int (length xs) then Some (xs ! nat i) else None)"

definition js_le :: "real option \<Rightarrow> real option \<Rightarrow> bool" where
  "js_le a b = (case (a, b) of (Some x, Some y) \<Rightarrow> x \<le> y | _ \<Rightarrow> False)"

text \<open>The decimal digits of an integer, as a template literal prints a time stamp.\<close>

definition digit_char :: "nat \<Rightarrow> char" where
  "digit_char d = ''0123456789'' ! d"

function string_of_nat :: "nat \<Rightarrow> string" where
  "string_of_nat n =
     (if n < 10 then [digit_char n] else string_of_nat (n div 10) @ [digit_char (n mod 10)])"
  by pat_completeness auto
termination
  by (relation "measure id") auto

definition string_of_int :: "int \<Rightarrow> string" where
  "string_of_int i = (if i < 0 then CHR ''-'' # string_of_nat (nat (- i)) else string_of_nat (nat i))"

section \<open>Indicators\<close>

subsection \<open>calculateEMA\<close>

text \<open>
  The first value is the average of the first \<open>period\<close> inputs (\<open>reduce\<close> from 0);
  the loop over \<open>i = period .. length - 1\<close> appends one value per remaining input,
  computed from the value appended last.
\<close>

definition ema_step :: "real \<Rightarrow> real \<Rightarrow> real list \<Rightarrow> real list" where
  "ema_step multiplier x ema = ema @ [x * multiplier + last ema * (1 - multiplier)]"

definition calculateEMA :: "real list \<Rightarrow> nat \<Rightarrow> real list" where
  "calculateEMA data period =
     (if length data < period then []
      else let multiplier = 2 / (real period + 1);
               sma = fold (\<lambda>val sum. sum + val) (take period data) 0 / real period
           in fold (ema_step multiplier) (drop period data) [sma])"

subsection \<open>calculateVWAP\<close>

text \<open>
  The loop state is the pair of running sums and the output built so far.
\<close>

definition typicalPrice :: "KlineData \<Rightarrow> real" where
  "typicalPrice candle = (k_high candle + k_low candle + k_close candle) / 3"

definition vwap_step :: "KlineData \<Rightarrow> real \<times> real \<times> VWAPData list \<Rightarrow> real \<times> real \<times> VWAPData list" where
  "vwap_step candle st =
     (case st of (cumulativeTPV, cumulativeVolume, out) \<Rightarrow>
        let tpv = typicalPrice candle * k_volume candle;
            cumulativeTPV' = cumulativeTPV + tpv;
            cumulativeVolume' = cumulativeVolume + k_volume candle;
            vwap = (if cumulativeVolume' > 0 then cumulativeTPV' / cumulativeVolume'
                    else typicalPrice candle)
        in (cumulativeTPV', cumulativeVolume',
            out @ [\<lparr>v_timestamp = k_closeTime candle, v_vwap = vwap, v_volume = k_volume candle\<rparr>]))"

definition calculateVWAP :: "KlineData list \<Rightarrow> VWAPData list" where
  "calculateVWAP klineData = snd (snd (fold vwap_step klineData (0, 0, [])))"

subsection \<open>calculateMACD\<close>

text \<open>
  \<open>Date.now()\<close> is evaluated once for every point pushed. The first argument
  \<open>now\<close> is the clock as the call sees it: \<open>now i\<close> is its reading when point \<open>i\<close>
  is built.
  The reads \<open>fastEMA[i + startIndex]\<close> and \<open>macdLine[macdIndex]\<close> are in range when
  \<open>fastPeriod \<le> slowPeriod\<close> and \<open>0 < signalPeriod\<close>; otherwise the source reads
  \<open>undefined\<close> and the MACD values are \<open>NaN\<close>, which this model does not represent.
\<close>

definition calculateMACD :: "(nat \<Rightarrow> int) \<Rightarrow> real list \<Rightarrow> nat \<Rightarrow> nat \<Rightarrow> nat \<Rightarrow> MACDData list" where
  "calculateMACD now prices fastPeriod slowPeriod signalPeriod =
     (let fastEMA = calculateEMA prices fastPeriod;
          slowEMA = calculateEMA prices slowPeriod
      in if length fastEMA = 0 \<or> length slowEMA = 0 then []
         else
           let startIndex = int slowPeriod - int fastPeriod;
               macdLine = map (\<lambda>i. fastEMA ! nat (int i + startIndex) - slowEMA ! i)
                            [0..<length slowEMA];
               signalLine = calculateEMA macdLine signalPeriod;
               signalStartIndex = int (length macdLine) - int (length signalLine)
           in map (\<lambda>i.
                let macdIndex = nat (int i + signalStartIndex)
                in \<lparr>m_timestamp = now i - (int (length signalLine) - int i - 1) * 60000,
                    m_macd = macdLine ! macdIndex,
                    m_signal = signalLine ! i,
                    m_histogram = macdLine ! macdIndex - signalLine ! i\<rparr>)
                [0..<length signalLine])"

section \<open>Supply and demand zones\<close>

subsection \<open>detectSupplyDemandZones\<close>

text \<open>
  \<open>zone_candidates klineData i\<close> is one pass of the loop body at index \<open>i\<close>: the zones
  pushed for the candle \<open>current = klineData[i]\<close> and its predecessor, in the order of
  the four tests. The loop runs over \<open>i = 2 .. length - 3\<close>, so both reads are in range.
  The body also reads \<open>next\<close>, \<open>prev2\<close> and \<open>next2\<close>, in range as well; no result
  depends on them.
\<close>

definition zone_candidates :: "KlineData list \<Rightarrow> nat \<Rightarrow> SupplyDemandZone list" where
  "zone_candidates klineData i =
     (let current = klineData ! i;
          prev = klineData ! (i - 1);
          currentHigh = k_high current; currentLow = k_low current;
          currentOpen = k_open current; currentClose = k_close current;
          prevHigh = k_high prev; prevLow = k_low prev; prevClose = k_close prev;
          bodySize = \<bar>currentClose - currentOpen\<bar>;
          upperWick = currentHigh - max currentOpen currentClose;
          lowerWick = min currentOpen currentClose - currentLow;
          totalRange = currentHigh - currentLow
      in (if prevClose < currentOpen \<and> currentClose > prevHigh
          then [\<lparr>z_type = Demand, z_high = currentHigh, z_low = min currentLow prevLow,
                 z_timestamp = k_closeTime current, z_strength = Strong, z_zoneType = DBR,
                 z_isValid = True\<rparr>]
          else []) @
         (if prevClose > currentOpen \<and> currentClose < prevLow
          then [\<lparr>z_type = Supply, z_high = max currentHigh prevHigh, z_low = currentLow,
                 z_timestamp = k_closeTime current, z_strength = Strong, z_zoneType = RBD,
                 z_isValid = True\<rparr>]
          else []) @
         (if lowerWick > bodySize * 2 \<and> lowerWick > upperWick * 2 \<and> totalRange > 0
          then [\<lparr>z_type = Demand, z_high = max currentOpen currentClose, z_low = currentLow,
                 z_timestamp = k_closeTime current,
                 z_strength = (if lowerWick > bodySize * 3 then Strong else Medium),
                 z_zoneType = DBR, z_isValid = True\<rparr>]
          else []) @
         (if upperWick > bodySize * 2 \<and> upperWick > lowerWick * 2 \<and> totalRange > 0
          then [\<lparr>z_type = Supply, z_high = currentHigh, z_low = min currentOpen currentClose,
                 z_timestamp = k_closeTime current,
                 z_strength = (if upperWick > bodySize * 3 then Strong else Medium),
                 z_zoneType = RBD, z_isValid = True\<rparr>]
          else []))"

definition detect_candidates :: "KlineData list \<Rightarrow> SupplyDemandZone list" where
  "detect_candidates klineData =
     concat (map (zone_candidates klineData) [2..<length klineData - 2])"

subsection \<open>consolidateZones\<close>

definition getZoneStrengthValue :: "zone_strength \<Rightarrow> nat" where
  "getZoneStrengthValue s = (case s of Weak \<Rightarrow> 1 | Medium \<Rightarrow> 2 | Strong \<Rightarrow> 3)"

definition zones_overlap :: "SupplyDemandZone \<Rightarrow> SupplyDemandZone \<Rightarrow> bool" where
  "zones_overlap zone existingZone =
     (z_type zone = z_type existingZone \<and>
      z_low zone \<le> z_high existingZone \<and> z_high zone \<ge> z_low existingZone)"

text \<open>
  The inner loop scans \<open>consolidated\<close> from its last index down to 0 and stops at the
  first overlap: \<open>find_conflict zone consolidated n\<close> scans the indices below \<open>n\<close> and
  returns the index where the loop breaks, if it does.
\<close>

fun find_conflict :: "SupplyDemandZone \<Rightarrow> SupplyDemandZone list \<Rightarrow> nat \<Rightarrow> nat option" where
  "find_conflict zone consolidated 0 = None"
| "find_conflict zone consolidated (Suc i) =
     (if zones_overlap zone (consolidated ! i) then Some i
      else find_conflict zone consolidated i)"

definition consolidate_step :: "SupplyDemandZone \<Rightarrow> SupplyDemandZone list \<Rightarrow> SupplyDemandZone list" where
  "consolidate_step zone consolidated =
     (case find_conflict zone consolidated (length consolidated) of
        None \<Rightarrow> consolidated @ [zone]
      | Some i \<Rightarrow>
          if getZoneStrengthValue (z_strength zone)
               > getZoneStrengthValue (z_strength (consolidated ! i))
          then consolidated[i := zone]
          else consolidated)"

definition consolidateZones :: "SupplyDemandZone list \<Rightarrow> SupplyDemandZone list" where
  "consolidateZones zones =
     (let consolidated = fold consolidate_step zones []
      in drop (length consolidated - 20) consolidated)"

definition detectSupplyDemandZones :: "KlineData list \<Rightarrow> SupplyDemandZone list" where
  "detectSupplyDemandZones klineData =
     (if length klineData < 10 then [] else consolidateZones (detect_candidates klineData))"

section \<open>Signals\<close>

subsection \<open>calculateSignalConfidence\<close>

record confidence_factors =
  f_bullStack :: bool
  f_priceAboveVWAP :: bool
  f_macdBull :: bool
  f_bounceQuality :: real
  f_volumeConfirmation :: bool

definition calculateSignalConfidence :: "confidence_factors \<Rightarrow> real" where
  "calculateSignalConfidence factors =
     (let c0 = (0::real);
          c1 = (if f_bullStack factors then c0 + 25 else c0);
          c2 = (if f_priceAboveVWAP factors then c1 + 20 else c1);
          c3 = (if f_macdBull factors then c2 + 20 else c2);
          c4 = (if f_volumeConfirmation factors then c3 + 15 else c3);
          confidence = c4 + max 0 (20 - f_bounceQuality factors * 100)
      in min 100 (max 0 confidence))"

subsection \<open>detectEMABounceSignal\<close>

text \<open>
  The loop carries \<open>waitBounce\<close>, \<open>barsWaited\<close> and the signals pushed so far.
  \<open>bounce_step\<close> is the loop body at index \<open>i\<close>; \<open>st2\<close> is the state after the
  state-machine statements. The candle, \<open>ema200[i]\<close> and
  \<open>macdData[i]\<close> are read in range, because \<open>1 \<le> i < minLength\<close> and \<open>minLength\<close> is at
  most the length of each of these arrays and at most \<open>klineData.length + 1\<close>. The reads of
  \<open>ema9\<close> and \<open>ema20\<close> fall before the start of the array when their period exceeds
  the slow one; then \<open>bullStack\<close> and \<open>emaCrossUp\<close> compare with \<open>undefined\<close> and are
  false, and the step only resets the state (last case).
\<close>

record bounce_state =
  waitBounce :: bool
  barsWaited :: int
  signals :: "EMABounceSignal list"

text \<open>
  \<open>bounce_signal\<close> is the block that runs when \<open>buySignal\<close> holds: it computes the
  confidence and builds the object pushed onto \<open>signals\<close>.
\<close>

definition bounce_signal ::
  "KlineData \<Rightarrow> real \<Rightarrow> real \<Rightarrow> real \<Rightarrow> real \<Rightarrow> MACDData \<Rightarrow> real \<Rightarrow> bool \<Rightarrow> bool \<Rightarrow> bool \<Rightarrow> bool
     \<Rightarrow> EMABounceSignal" where
  "bounce_signal current currentEma9 currentEma20 currentEma200 currentVwap currentMacd tolPrice
       bullStack priceAboveVWAP macdBull bounce =
     (let confidence = calculateSignalConfidence
            \<lparr>f_bullStack = bullStack, f_priceAboveVWAP = priceAboveVWAP, f_macdBull = macdBull,
             f_bounceQuality = (tolPrice - k_low current) / tolPrice,
             f_volumeConfirmation = (k_volume current > 0)\<rparr>
      in \<lparr>b_timestamp = k_closeTime current, b_type = Buy, b_price = k_close current,
          b_ema9 = currentEma9, b_ema20 = currentEma20, b_ema200 = currentEma200,
          b_vwap = currentVwap, b_macdLine = m_macd currentMacd,
          b_macdSignal = m_signal currentMacd, b_bullishStack = bullStack,
          b_priceAboveVWAP = priceAboveVWAP, b_macdBullish = macdBull,
          b_bounceConfirmed = bounce, b_confidence = confidence\<rparr>)"

text \<open>
  The two statements of the state machine: arm on a cross-up or count a bar while waiting
  (\<open>st1\<close>), then abort when the stack breaks or the wait is over.
\<close>

definition wait_update :: "bool \<Rightarrow> bool \<Rightarrow> int \<Rightarrow> bounce_state \<Rightarrow> bounce_state" where
  "wait_update emaCrossUp bullStack maxWait st =
     (let st1 = (if emaCrossUp then st\<lparr>waitBounce := True, barsWaited := 0\<rparr>
                 else if waitBounce st then st\<lparr>barsWaited := barsWaited st + 1\<rparr>
                 else st)
      in if \<not> bullStack \<or> (maxWait > 0 \<and> barsWaited st1 > maxWait)
         then st1\<lparr>waitBounce := False, barsWaited := 0\<rparr>
         else st1)"

definition bounce_step ::
  "KlineData list \<Rightarrow> VWAPData list \<Rightarrow> real list \<Rightarrow> real list \<Rightarrow> real list \<Rightarrow> MACDData list
     \<Rightarrow> nat \<Rightarrow> real \<Rightarrow> int \<Rightarrow> nat \<Rightarrow> bounce_state \<Rightarrow> bounce_state" where
  "bounce_step klineData vwapData ema9 ema20 ema200 macdData minLength tolPct maxWait i st =
     (let startIndex = int (length klineData) - int minLength;
          currentIndex = startIndex + int i;
          current = klineData ! nat currentIndex;
          currentClose = k_close current;
          currentLow = k_low current;
          i9 = int (length ema9) - int minLength + int i;
          i20 = int (length ema20) - int minLength + int i;
          currentEma200 = ema200 ! i;
          currentVwap = (case js_nth vwapData (int (length vwapData) - int minLength + int i) of
                           None \<Rightarrow> 0 | Some v \<Rightarrow> v_vwap v);
          currentMacd = macdData ! i
      in case (js_nth ema9 i9, js_nth ema20 i20) of
           (Some currentEma9, Some currentEma20) \<Rightarrow>
             let prevEma9 = js_nth ema9 (i9 - 1);
                 prevEma20 = js_nth ema20 (i20 - 1);
                 bullStack = (currentEma9 > currentEma20 \<and> currentEma20 > currentEma200);
                 emaCrossUp = (js_le prevEma9 prevEma20 \<and> currentEma9 > currentEma20
                               \<and> currentEma9 > currentEma200);
                 tolPrice = currentEma9 * (1 + tolPct / 100);
                 bounce = (currentLow \<le> tolPrice \<and> currentClose > currentEma9);
                 priceAboveVWAP = (currentClose > currentVwap);
                 macdBull = (m_macd currentMacd > m_signal currentMacd);
                 st2 = wait_update emaCrossUp bullStack maxWait st;
                 buySignal = (waitBounce st2 \<and> bounce \<and> priceAboveVWAP \<and> macdBull)
             in if buySignal
                then \<lparr>waitBounce = False, barsWaited = 0,
                      signals = signals st2 @
                        [bounce_signal current currentEma9 currentEma20 currentEma200 currentVwap
                           currentMacd tolPrice bullStack priceAboveVWAP macdBull bounce]\<rparr>
                else st2
         | _ \<Rightarrow> st\<lparr>waitBounce := False, barsWaited := 0\<rparr>)"

definition detectEMABounceSignal ::
  "(nat \<Rightarrow> int) \<Rightarrow> KlineData list \<Rightarrow> VWAPData list \<Rightarrow> nat \<Rightarrow> nat \<Rightarrow> nat \<Rightarrow> nat \<Rightarrow> nat \<Rightarrow> nat
     \<Rightarrow> real \<Rightarrow> int \<Rightarrow> EMABounceSignal list" where
  "detectEMABounceSignal now klineData vwapData fastLen medLen slowLen macdFast macdSlow macdSig
       tolPct maxWait =
     (if length klineData < slowLen then []
      else
        let closePrices = map k_close klineData;
            ema9 = calculateEMA closePrices fastLen;
            ema20 = calculateEMA closePrices medLen;
            ema200 = calculateEMA closePrices slowLen;
            macdData = calculateMACD now closePrices macdFast macdSlow macdSig;
            minLength = min (length ema200) (min (length macdData) (length vwapData))
        in signals
             (fold (bounce_step klineData vwapData ema9 ema20 ema200 macdData minLength tolPct maxWait)
                [1..<minLength]
                \<lparr>waitBounce = False, barsWaited = 0, signals = []\<rparr>))"

subsection \<open>detectSupplyDemandSignals\<close>

definition pattern_name :: "zone_pattern \<Rightarrow> string" where
  "pattern_name p = (case p of RBR \<Rightarrow> ''RBR'' | DBD \<Rightarrow> ''DBD'' | DBR \<Rightarrow> ''DBR'' | RBD \<Rightarrow> ''RBD'')"

definition getZoneConfidence :: "SupplyDemandZone \<Rightarrow> real" where
  "getZoneConfidence zone =
     (let c0 = (50::real);
          c1 = (if z_strength zone = Strong then c0 + 30
                else if z_strength zone = Medium then c0 + 15 else c0);
          c2 = (if z_zoneType zone = DBR \<or> z_zoneType zone = RBD then c1 + 20 else c1)
      in min 100 c2)"

text \<open>\<open>zone_signal candle zone\<close> is the body of the inner loop: the signal pushed, if any.\<close>

definition zone_signal :: "KlineData \<Rightarrow> SupplyDemandZone \<Rightarrow> SupplyDemandSignal list" where
  "zone_signal candle zone =
     (let currentPrice = k_close candle;
          currentLow = k_low candle;
          currentHigh = k_high candle
      in if \<not> z_isValid zone then []
         else
           let priceInZone = (currentLow \<le> z_high zone \<and> currentHigh \<ge> z_low zone)
           in if priceInZone then
                if z_type zone = Demand \<and> currentPrice > z_low zone then
                  let stopLoss = z_low zone * 0.99;
                      takeProfit = z_high zone + (z_high zone - z_low zone) * 2;
                      riskReward = (takeProfit - currentPrice) / (currentPrice - stopLoss)
                  in [\<lparr>s_timestamp = k_closeTime candle, s_type = Buy, s_price = currentPrice,
                       s_zone = zone,
                       s_entryReason = ''Price bounced from '' @ pattern_name (z_zoneType zone)
                                       @ '' demand zone'',
                       s_stopLoss = stopLoss, s_takeProfit = takeProfit,
                       s_riskReward = riskReward, s_confidence = getZoneConfidence zone\<rparr>]
                else if z_type zone = Supply \<and> currentPrice < z_high zone then
                  let stopLoss = z_high zone * 1.01;
                      takeProfit = z_low zone - (z_high zone - z_low zone) * 2;
                      riskReward = (currentPrice - takeProfit) / (stopLoss - currentPrice)
                  in [\<lparr>s_timestamp = k_closeTime candle, s_type = Sell, s_price = currentPrice,
                       s_zone = zone,
                       s_entryReason = ''Price rejected from '' @ pattern_name (z_zoneType zone)
                                       @ '' supply zone'',
                       s_stopLoss = stopLoss, s_takeProfit = takeProfit,
                       s_riskReward = riskReward, s_confidence = getZoneConfidence zone\<rparr>]
                else []
              else [])"

definition recentCandles :: "KlineData list \<Rightarrow> KlineData list" where
  "recentCandles klineData = drop (length klineData - 50) klineData"

definition detectSupplyDemandSignals ::
  "KlineData list \<Rightarrow> SupplyDemandZone list \<Rightarrow> SupplyDemandSignal list" where
  "detectSupplyDemandSignals klineData zones =
     (if length klineData = 0 \<or> length zones = 0 then []
      else concat (map (\<lambda>candle. concat (map (zone_signal candle) zones))
                     (recentCandles klineData)))"

section \<open>TechnicalAnalysisService.analyzeData\<close>

text \<open>
  The clock is read in both calls of \<open>calculateMACD\<close>: \<open>now1\<close> is the clock as seen
  by the call that produces \<open>macdData\<close>, \<open>now2\<close> as seen by the call inside
  \<open>detectEMABounceSignal\<close>.
\<close>

definition ema_signal ::
  "exchange \<Rightarrow> trading_type \<Rightarrow> string \<Rightarrow> timeframe \<Rightarrow> EMABounceSignal \<Rightarrow> TradingSignal" where
  "ema_signal ex tt symbol tf signal =
     \<lparr>t_id = ''ema_'' @ string_of_int (b_timestamp signal), t_symbol = symbol, t_exchange = ex,
      t_tradingType = tt, t_timeframe = tf, t_timestamp = b_timestamp signal,
      t_type = b_type signal, t_price = b_price signal, t_strategy = Ema_bounce,
      t_signalData = Inl signal, t_isActive = True, t_confidence = b_confidence signal\<rparr>"

definition sd_signal ::
  "exchange \<Rightarrow> trading_type \<Rightarrow> string \<Rightarrow> timeframe \<Rightarrow> SupplyDemandSignal \<Rightarrow> TradingSignal" where
  "sd_signal ex tt symbol tf signal =
     \<lparr>t_id = ''sd_'' @ string_of_int (s_timestamp signal), t_symbol = symbol, t_exchange = ex,
      t_tradingType = tt, t_timeframe = tf, t_timestamp = s_timestamp signal,
      t_type = s_type signal, t_price = s_price signal, t_strategy = Supply_demand,
      t_signalData = Inr signal, t_isActive = True, t_confidence = s_confidence signal\<rparr>"

definition analyzeData ::
  "(nat \<Rightarrow> int) \<Rightarrow> (nat \<Rightarrow> int) \<Rightarrow> exchange \<Rightarrow> trading_type \<Rightarrow> string \<Rightarrow> timeframe \<Rightarrow> KlineData list
     \<Rightarrow> analysis_result" where
  "analyzeData now1 now2 ex tt symbol tf klineData =
     (let closePrices = map k_close klineData;
          ema9 = calculateEMA closePrices 9;
          ema20 = calculateEMA closePrices 20;
          ema200 = calculateEMA closePrices 200;
          minLength = min (length ema9) (min (length ema20) (length ema200));
          startIndex = length klineData - minLength;
          emaData' = map (\<lambda>i.
                       \<lparr>e_timestamp = k_closeTime (klineData ! (startIndex + i)),
                        e_ema9 = ema9 ! (length ema9 - minLength + i),
                        e_ema20 = ema20 ! (length ema20 - minLength + i),
                        e_ema200 = ema200 ! i\<rparr>) [0..<minLength];
          vwapData' = calculateVWAP klineData;
          macdData' = calculateMACD now1 closePrices 12 26 9;
          zones = detectSupplyDemandZones klineData;
          bounceSignals = detectEMABounceSignal now2 klineData vwapData' 9 20 200 12 26 9 0.05 30;
          zoneSignals = detectSupplyDemandSignals klineData zones
      in \<lparr>r_emaData = emaData', r_vwapData = vwapData', r_macdData = macdData',
          r_supplyDemandZones = zones, r_emaBounceSignals = bounceSignals,
          r_supplyDemandSignals = zoneSignals,
          r_allSignals = map (ema_signal ex tt symbol tf) bounceSignals
                       @ map (sd_signal ex tt symbol tf) zoneSignals\<rparr>)"

section \<open>Well-formed candles and example inputs\<close>

definition well_formed :: "KlineData \<Rightarrow> bool" where
  "well_formed c = (k_low c \<le> k_open c \<and> k_open c \<le> k_high c \<and>
                    k_low c \<le> k_close c \<and> k_close c \<le> k_high c)"

text \<open>
  \<open>cndl t opn hi lo cl vol\<close> is the one-minute candle number \<open>t\<close>: it opens at
  \<open>60000 t\<close> and closes at \<open>60000 t + 59999\<close>.
\<close>

definition cndl :: "int \<Rightarrow> real \<Rightarrow> real \<Rightarrow> real \<Rightarrow> real \<Rightarrow> real \<Rightarrow> KlineData" where
  "cndl t opn hi lo cl vol =
     \<lparr>k_openTime = t * 60000, k_open = opn, k_high = hi, k_low = lo, k_close = cl,
      k_volume = vol, k_closeTime = t * 60000 + 59999\<rparr>"


text \<open>
  Ten candles, each opening at the close of the one before, with three pin bars:
  candle 2 (medium, band 100 to 110), candle 4 (medium, band 120 to 130) and candle 6
  (strong, band 100 to 130).
\<close>

definition zone_example :: "KlineData list" where
  "zone_example =
     [cndl 0 107 107 107 107 1, cndl 1 107 107 107 107 1, cndl 2 107 110 100 110 1,
      cndl 3 110 127 110 127 1, cndl 4 127 130 120 130 1, cndl 5 130 130 130 130 1,
      cndl 6 130 130 100 130 1, cndl 7 130 130 130 130 1, cndl 8 130 130 130 130 1,
      cndl 9 130 130 130 130 1]"

definition zone_A :: SupplyDemandZone where
  "zone_A = \<lparr>z_type = Demand, z_high = 110, z_low = 100, z_timestamp = 179999,
             z_strength = Medium, z_zoneType = DBR, z_isValid = True\<rparr>"

definition zone_B :: SupplyDemandZone where
  "zone_B = \<lparr>z_type = Demand, z_high = 130, z_low = 120, z_timestamp = 299999,
             z_strength = Medium, z_zoneType = DBR, z_isValid = True\<rparr>"

definition zone_C :: SupplyDemandZone where
  "zone_C = \<lparr>z_type = Demand, z_high = 130, z_low = 100, z_timestamp = 419999,
             z_strength = Strong, z_zoneType = DBR, z_isValid = True\<rparr>"




text \<open>
  201 one-minute candles with zero volume. All are flat at 100, except candles 34, 35
  and 36, flat at 101.05, 98.21 and 100.76, and the last one, which rises from 100 to 110.
  \<open>big_closes\<close> is the list of their closes; \<open>big_D1\<close> to \<open>big_S4\<close> are the zones
  the four level changes at candles 34 to 37 produce.
\<close>

definition big_candle :: "nat \<Rightarrow> KlineData" where
  "big_candle t =
     (if t = 34 then cndl 34 101.05 101.05 101.05 101.05 0
      else if t = 35 then cndl 35 98.21 98.21 98.21 98.21 0
      else if t = 36 then cndl 36 100.76 100.76 100.76 100.76 0
      else if t = 200 then cndl 200 100 110 100 110 0
      else cndl (int t) 100 100 100 100 0)"

definition big_example :: "KlineData list" where
  "big_example = map big_candle [0..<201]"

definition big_closes :: "real list" where
  "big_closes = replicate 34 100 @ [101.05, 98.21, 100.76] @ replicate 163 100 @ [110]"

definition big_D1 :: SupplyDemandZone where
  "big_D1 = \<lparr>z_type = Demand, z_high = 101.05, z_low = 100, z_timestamp = 2099999,
              z_strength = Strong, z_zoneType = DBR, z_isValid = True\<rparr>"

definition big_S2 :: SupplyDemandZone where
  "big_S2 = \<lparr>z_type = Supply, z_high = 101.05, z_low = 98.21, z_timestamp = 2159999,
              z_strength = Strong, z_zoneType = RBD, z_isValid = True\<rparr>"

definition big_D3 :: SupplyDemandZone where
  "big_D3 = \<lparr>z_type = Demand, z_high = 100.76, z_low = 98.21, z_timestamp = 2219999,
              z_strength = Strong, z_zoneType = DBR, z_isValid = True\<rparr>"

definition big_S4 :: SupplyDemandZone where
  "big_S4 = \<lparr>z_type = Supply, z_high = 100.76, z_low = 100, z_timestamp = 2279999,
              z_strength = Strong, z_zoneType = RBD, z_isValid = True\<rparr>"

text \<open>\<open>clock_at t\<close> is a clock that reads \<open>t\<close> during a whole call.\<close>

definition clock_at :: "int \<Rightarrow> nat \<Rightarrow> int" where
  "clock_at t i = t"

section \<open>Properties of the indicators\<close>

subsection \<open>The moving average\<close>

lemma fold_add_sum_list: "fold (\<lambda>val sum. sum + val) xs (a::real) = a + sum_list xs"
  by (induction xs arbitrary: a) auto

lemma fold_ema_step_length: "length (fold (ema_step m) xs acc) = length acc + length xs"
  by (induction xs arbitrary: acc) (auto simp: ema_step_def)

lemma fold_ema_step_prefix:
  "j < length acc \<Longrightarrow> fold (ema_step m) xs acc ! j = acc ! j"
  by (induction xs arbitrary: acc) (auto simp: ema_step_def nth_append)

lemma fold_ema_step_rec:
  "acc \<noteq> [] \<Longrightarrow> k < length xs \<Longrightarrow>
   fold (ema_step m) xs acc ! (length acc + k)
     = xs ! k * m + fold (ema_step m) xs acc ! (length acc + k - 1) * (1 - m)"
proof (induction xs arbitrary: acc k)
  case Nil
  then show ?case by simp
next
  case (Cons x xs)
  let ?acc = "ema_step m x acc"
  have len: "length ?acc = Suc (length acc)" by (simp add: ema_step_def)
  have ne: "?acc \<noteq> []" by (simp add: ema_step_def)
  show ?case
  proof (cases k)
    case 0
    have a: "fold (ema_step m) xs ?acc ! length acc = ?acc ! length acc"
      by (rule fold_ema_step_prefix) (simp add: len)
    have b: "fold (ema_step m) xs ?acc ! (length acc - 1) = ?acc ! (length acc - 1)"
      by (rule fold_ema_step_prefix) (simp add: len)
    have c: "?acc ! (length acc - 1) = last acc"
      using Cons.prems(1) by (simp add: ema_step_def nth_append last_conv_nth)
    have d: "?acc ! length acc = x * m + last acc * (1 - m)"
      by (simp add: ema_step_def)
    show ?thesis using 0 a b c d by simp
  next
    case (Suc k')
    have "k' < length xs" using Cons.prems(2) Suc by simp
    from Cons.IH[OF ne this] show ?thesis using Suc len by simp
  qed
qed

lemma calculateEMA_short: "length data < period \<Longrightarrow> calculateEMA data period = []"
  by (simp add: calculateEMA_def)

lemma calculateEMA_length:
  "period \<le> length data \<Longrightarrow> length (calculateEMA data period) = length data - period + 1"
  by (simp add: calculateEMA_def Let_def fold_ema_step_length)

lemma calculateEMA_first:
  "period \<le> length data \<Longrightarrow>
   calculateEMA data period ! 0 = sum_list (take period data) / real period"
  by (simp add: calculateEMA_def Let_def fold_ema_step_prefix fold_add_sum_list)

lemma calculateEMA_rec:
  assumes "period \<le> length data" "0 < k" "k < length data - period + 1"
  shows "calculateEMA data period ! k
         = data ! (period + k - 1) * (2 / (real period + 1))
           + calculateEMA data period ! (k - 1) * (1 - 2 / (real period + 1))"
proof -
  obtain k' where k': "k = Suc k'" using assms(2) by (cases k) auto
  have "k' < length (drop period data)" using assms k' by simp
  from fold_ema_step_rec[where acc="[s]" and k=k' and xs="drop period data" for s, OF _ this]
  show ?thesis using assms(1) k' by (simp add: calculateEMA_def Let_def add.commute)
qed

text \<open>A constant series has a constant average; a longer series extends the average.\<close>

lemma ema_step_const: "ema_step m c (acc @ [c]) = acc @ [c, c]"
  by (simp add: ema_step_def algebra_simps)

lemma fold_ema_step_const:
  "fold (ema_step m) (replicate k c) (acc @ [c]) = acc @ replicate (Suc k) c"
proof (induction k arbitrary: acc)
  case 0
  then show ?case by simp
next
  case (Suc k)
  have "fold (ema_step m) (replicate (Suc k) c) (acc @ [c])
        = fold (ema_step m) (replicate k c) ((acc @ [c]) @ [c])"
    by (simp add: ema_step_const)
  also have "\<dots> = (acc @ [c]) @ replicate (Suc k) c" by (rule Suc.IH)
  also have "\<dots> = acc @ replicate (Suc (Suc k)) c" by simp
  finally show ?case .
qed

lemma calculateEMA_replicate:
  assumes "0 < p" "p \<le> n"
  shows "calculateEMA (replicate n c) p = replicate (n - p + 1) c"
proof -
  have "take p (replicate n c) = replicate p c" using assms by (simp add: min_def)
  then have "fold (\<lambda>val sum. sum + val) (take p (replicate n c)) 0 = real p * c"
    unfolding fold_add_sum_list by (simp add: sum_list_replicate)
  then have sma: "fold (\<lambda>val sum. sum + val) (take p (replicate n c)) 0 / real p = c"
    using assms by simp
  have d: "drop p (replicate n c) = replicate (n - p) c" by simp
  have "\<not> length (replicate n c) < p" using assms by simp
  then show ?thesis
    unfolding calculateEMA_def Let_def sma d
    using assms fold_ema_step_const[of "2 / (real p + 1)" "n - p" c "[]"]
    by (simp del: fold_replicate)
qed

lemma calculateEMA_append:
  assumes "p \<le> length xs"
  shows "calculateEMA (xs @ ys) p = fold (ema_step (2 / (real p + 1))) ys (calculateEMA xs p)"
  using assms by (simp add: calculateEMA_def Let_def)

text \<open>
  Claim C4. \<open>calculateEMA\<close> returns the empty list when the series is shorter than the
  period \<open>p\<close>. Otherwise the output has \<open>length data - p + 1\<close> values; for a period of at
  least 1 the first is the average of the first \<open>p\<close> inputs, and the value at each later
  position \<open>k\<close>, which belongs to the input at index \<open>p + k - 1\<close>, is
  \<open>price \<sqdot> \<alpha> + previous \<sqdot> (1 - \<alpha>)\<close> with \<open>\<alpha> = 2 / (p + 1)\<close>. (For \<open>p = 0\<close> the source
  divides 0 by 0 and every value is \<open>NaN\<close>; the length is still \<open>length data + 1\<close>.)
\<close>

theorem C4_calculateEMA:
  "(length data < period \<longrightarrow> calculateEMA data period = []) \<and>
   (period \<le> length data \<longrightarrow>
      length (calculateEMA data period) = length data - period + 1) \<and>
   (0 < period \<and> period \<le> length data \<longrightarrow>
      calculateEMA data period ! 0 = sum_list (take period data) / real period \<and>
      (\<forall>k. 0 < k \<and> k < length data - period + 1 \<longrightarrow>
         calculateEMA data period ! k
           = data ! (period + k - 1) * (2 / (real period + 1))
             + calculateEMA data period ! (k - 1) * (1 - 2 / (real period + 1))))"
  using calculateEMA_short calculateEMA_length calculateEMA_first calculateEMA_rec
  by blast

theorem C4_calculateEMA_witness:
  "length [1::real] < 2 \<and> calculateEMA [1] 2 = [] \<and>
   (0::nat) < 2 \<and> 2 \<le> length [1, 2, 3, 4 :: real] \<and>
   length (calculateEMA [1, 2, 3, 4] 2) = 3 \<and>
   calculateEMA [1, 2, 3, 4] 2 ! 0 = 3 / 2 \<and>
   (0::nat) < 1 \<and> 1 < length [1, 2, 3, 4 :: real] - 2 + 1 \<and>
   calculateEMA [1, 2, 3, 4] 2 ! 1 = 3 * (2 / 3) + calculateEMA [1, 2, 3, 4] 2 ! 0 * (1 - 2 / 3)"
  using C4_calculateEMA[of "[1]" 2] C4_calculateEMA[of "[1, 2, 3, 4]" 2]
  by simp

subsection \<open>The volume-weighted average price\<close>

lemma fold_vwap_step_sums:
  "fst (fold vwap_step kl (T, V, out)) = T + sum_list (map (\<lambda>c. typicalPrice c * k_volume c) kl) \<and>
   fst (snd (fold vwap_step kl (T, V, out))) = V + sum_list (map k_volume kl)"
  by (induction kl arbitrary: T V out) (auto simp: vwap_step_def Let_def)

lemma calculateVWAP_snoc:
  "calculateVWAP (kl @ [c]) =
     calculateVWAP kl @
       [\<lparr>v_timestamp = k_closeTime c,
         v_vwap = (if sum_list (map k_volume (kl @ [c])) > 0
                   then sum_list (map (\<lambda>c. typicalPrice c * k_volume c) (kl @ [c]))
                        / sum_list (map k_volume (kl @ [c]))
                   else typicalPrice c),
         v_volume = k_volume c\<rparr>]"
proof -
  obtain T V out where st: "fold vwap_step kl (0, 0, []) = (T, V, out)"
    by (cases "fold vwap_step kl (0, 0, [])") auto
  from fold_vwap_step_sums[of kl 0 0 "[]"] st
  have T: "T = sum_list (map (\<lambda>c. typicalPrice c * k_volume c) kl)"
    and V: "V = sum_list (map k_volume kl)" by auto
  show ?thesis
    by (simp add: calculateVWAP_def st vwap_step_def Let_def T V)
qed

lemma calculateVWAP_length: "length (calculateVWAP kl) = length kl"
proof (induction kl rule: rev_induct)
  case Nil
  then show ?case by (simp add: calculateVWAP_def)
next
  case (snoc c kl)
  then show ?case by (simp only: calculateVWAP_snoc length_append list.size)
qed

lemma calculateVWAP_nth:
  "i < length kl \<Longrightarrow>
   calculateVWAP kl ! i =
     \<lparr>v_timestamp = k_closeTime (kl ! i),
      v_vwap = (if sum_list (map k_volume (take (Suc i) kl)) > 0
                then sum_list (map (\<lambda>c. typicalPrice c * k_volume c) (take (Suc i) kl))
                     / sum_list (map k_volume (take (Suc i) kl))
                else typicalPrice (kl ! i)),
      v_volume = k_volume (kl ! i)\<rparr>"
proof (induction kl rule: rev_induct)
  case Nil
  then show ?case by simp
next
  case (snoc c kl)
  show ?case
  proof (cases "i < length kl")
    case True
    then show ?thesis using snoc.IH
      by (simp add: calculateVWAP_snoc nth_append calculateVWAP_length)
  next
    case False
    then have "i = length kl" using snoc.prems by simp
    then show ?thesis
      by (simp add: calculateVWAP_snoc nth_append calculateVWAP_length)
  qed
qed

lemma sum_list_all_zero: "\<forall>x \<in> set (xs :: real list). x = 0 \<Longrightarrow> sum_list xs = 0"
  by (induction xs) auto

lemma sum_list_zero_volume:
  assumes "\<forall>c \<in> set kl. k_volume c = 0"
  shows "sum_list (map k_volume (take n kl)) = 0"
  by (rule sum_list_all_zero) (use assms in \<open>auto dest: in_set_takeD\<close>)



section \<open>Properties of the zones\<close>

lemma upt_2_8: "[2..<8] = [2,3,4,5,6,7]"
  by (simp add: upt_rec)

lemma zone_example_candidates: "detect_candidates zone_example = [zone_A, zone_B, zone_C]"
  by (simp add: detect_candidates_def zone_example_def upt_2_8 zone_candidates_def cndl_def
      zone_A_def zone_B_def zone_C_def Let_def)

lemma consolidate_ABC: "consolidateZones [zone_A, zone_B, zone_C] = [zone_A, zone_C]"
  by (simp add: consolidateZones_def consolidate_step_def zones_overlap_def
      getZoneStrengthValue_def zone_A_def zone_B_def zone_C_def numeral_2_eq_2)

lemma zone_example_zones: "detectSupplyDemandZones zone_example = [zone_A, zone_C]"
  using zone_example_candidates consolidate_ABC
  by (simp add: detectSupplyDemandZones_def) (simp add: zone_example_def)

lemma find_conflict_less: "find_conflict z cs n = Some i \<Longrightarrow> i < n"
  by (induction n) (auto split: if_splits)

lemma set_consolidate_step: "set (consolidate_step z cs) \<subseteq> insert z (set cs)"
proof (cases "find_conflict z cs (length cs)")
  case None
  then show ?thesis by (auto simp: consolidate_step_def)
next
  case (Some i)
  then show ?thesis
    using set_update_subset_insert[of cs i z] by (auto simp: consolidate_step_def)
qed

lemma set_fold_consolidate_step: "set (fold consolidate_step zs acc) \<subseteq> set zs \<union> set acc"
proof (induction zs arbitrary: acc)
  case Nil
  then show ?case by simp
next
  case (Cons z zs)
  from Cons.IH[of "consolidate_step z acc"] set_consolidate_step[of z acc]
  show ?case by auto
qed

lemma set_consolidateZones: "set (consolidateZones zs) \<subseteq> set zs"
proof -
  have "set (consolidateZones zs) \<subseteq> set (fold consolidate_step zs [])"
    by (simp add: consolidateZones_def Let_def set_drop_subset)
  with set_fold_consolidate_step[of zs "[]"] show ?thesis by auto
qed

lemma set_detectSupplyDemandZones:
  "set (detectSupplyDemandZones kl) \<subseteq> set (detect_candidates kl)"
  using set_consolidateZones by (auto simp: detectSupplyDemandZones_def)

lemma detect_candidates_elem:
  assumes "z \<in> set (detect_candidates kl)"
  obtains i where "2 \<le> i" "i + 2 < length kl" "z \<in> set (zone_candidates kl i)"
  using assms by (auto simp: detect_candidates_def)

lemma zone_candidates_tags:
  "z \<in> set (zone_candidates kl i) \<Longrightarrow>
   (z_zoneType z = DBR \<or> z_zoneType z = RBD) \<and>
   (z_strength z = Strong \<or> z_strength z = Medium) \<and> z_isValid z"
  by (auto simp: zone_candidates_def Let_def split: if_splits)

lemma zone_candidates_band:
  "well_formed (kl ! i) \<Longrightarrow> z \<in> set (zone_candidates kl i) \<Longrightarrow> z_low z \<le> z_high z"
  by (auto simp: zone_candidates_def Let_def well_formed_def split: if_splits)

text \<open>
  Claim C9. If every candle of the input is well formed (its low is at most its open and
  its close, which are at most its high), every zone \<open>detectSupplyDemandZones\<close> builds
  has \<open>high \<ge> low\<close>: the candidates pushed by the engulfing and pin-bar tests, before
  consolidation, and the zones returned after it.
\<close>

theorem C9_zone_band:
  assumes "\<forall>c \<in> set klineData. well_formed c"
  shows "(\<forall>z \<in> set (detect_candidates klineData). z_high z \<ge> z_low z) \<and>
         (\<forall>z \<in> set (detectSupplyDemandZones klineData). z_high z \<ge> z_low z)"
proof -
  have cand: "z_high z \<ge> z_low z" if "z \<in> set (detect_candidates klineData)" for z
  proof -
    from that obtain i where i: "i + 2 < length klineData" "z \<in> set (zone_candidates klineData i)"
      by (rule detect_candidates_elem)
    then have "well_formed (klineData ! i)" using assms by simp
    with i(2) show ?thesis by (simp add: zone_candidates_band)
  qed
  with set_detectSupplyDemandZones[of klineData] show ?thesis by blast
qed

lemma zone_example_well_formed: "\<forall>c \<in> set zone_example. well_formed c"
  by (simp add: zone_example_def cndl_def well_formed_def)

theorem C9_zone_band_witness:
  "list_all well_formed zone_example \<and>
   zone_B \<in> set (detect_candidates zone_example) \<and> z_high zone_B \<ge> z_low zone_B \<and>
   zone_C \<in> set (detectSupplyDemandZones zone_example) \<and> z_high zone_C \<ge> z_low zone_C"
  using C9_zone_band[OF zone_example_well_formed] zone_example_well_formed
  by (simp add: zone_example_candidates zone_example_zones list_all_iff)

lemma getZoneConfidence_values:
  "(z_zoneType z = DBR \<or> z_zoneType z = RBD) \<Longrightarrow> (z_strength z = Strong \<or> z_strength z = Medium)
   \<Longrightarrow> getZoneConfidence z = 85 \<or> getZoneConfidence z = 100"
  by (auto simp: getZoneConfidence_def Let_def)

lemma zone_signal_elem:
  "s \<in> set (zone_signal candle zone) \<Longrightarrow> s_zone s = zone \<and> s_confidence s = getZoneConfidence zone
     \<and> s_timestamp s = k_closeTime candle"
  by (auto simp: zone_signal_def Let_def split: if_splits)

lemma detectSupplyDemandSignals_elem:
  assumes "s \<in> set (detectSupplyDemandSignals kl zones)"
  obtains candle zone where "candle \<in> set (recentCandles kl)" "zone \<in> set zones"
    "s \<in> set (zone_signal candle zone)"
  using assms by (auto simp: detectSupplyDemandSignals_def split: if_splits)

lemma zone_signal_demand:
  assumes "z_isValid zone" "z_type zone = Demand" "k_low candle \<le> z_high zone"
    "k_high candle \<ge> z_low zone" "z_low zone < k_close candle"
  shows "zone_signal candle zone =
     [\<lparr>s_timestamp = k_closeTime candle, s_type = Buy, s_price = k_close candle, s_zone = zone,
       s_entryReason = ''Price bounced from '' @ pattern_name (z_zoneType zone) @ '' demand zone'',
       s_stopLoss = z_low zone * 0.99,
       s_takeProfit = z_high zone + (z_high zone - z_low zone) * 2,
       s_riskReward = (z_high zone + (z_high zone - z_low zone) * 2 - k_close candle)
                      / (k_close candle - z_low zone * 0.99),
       s_confidence = getZoneConfidence zone\<rparr>]"
  using assms by (simp add: zone_signal_def Let_def)

lemma detectSupplyDemandSignals_intro:
  assumes "candle \<in> set (recentCandles kl)" "zone \<in> set zones" "s \<in> set (zone_signal candle zone)"
  shows "s \<in> set (detectSupplyDemandSignals kl zones)"
proof -
  have "kl \<noteq> []" using assms(1) by (auto simp: recentCandles_def)
  moreover have "zones \<noteq> []" using assms(2) by auto
  ultimately show ?thesis using assms by (auto simp: detectSupplyDemandSignals_def)
qed

lemma recentCandles_append: "length recent = 50 \<Longrightarrow> recentCandles (older @ recent) = recent"
  by (simp add: recentCandles_def)

lemma recentCandles_self: "length recent \<le> 50 \<Longrightarrow> recentCandles recent = recent"
  by (simp add: recentCandles_def)

lemma zone_example_signal:
  "hd (zone_signal (cndl 3 110 127 110 127 1) zone_A)
     \<in> set (detectSupplyDemandSignals zone_example (detectSupplyDemandZones zone_example))"
proof (rule detectSupplyDemandSignals_intro)
  show "cndl 3 110 127 110 127 1 \<in> set (recentCandles zone_example)"
    by (simp add: recentCandles_def zone_example_def)
  show "zone_A \<in> set (detectSupplyDemandZones zone_example)"
    by (simp add: zone_example_zones)
  show "hd (zone_signal (cndl 3 110 127 110 127 1) zone_A)
          \<in> set (zone_signal (cndl 3 110 127 110 127 1) zone_A)"
    by (simp add: zone_signal_def zone_A_def cndl_def Let_def)
qed

text \<open>
  Claim C10. Every zone returned by \<open>detectSupplyDemandZones\<close> has pattern tag
  \<open>DBR\<close> or \<open>RBD\<close>, strength strong or medium (never weak) and \<open>isValid = true\<close>, so
  \<open>getZoneConfidence\<close> gives it 85 or 100; and every signal \<open>detectSupplyDemandSignals\<close>
  derives from these zones, whatever the candles, carries a confidence of 85 or 100. The
  branches of the score for a weak strength or another pattern are not reached.
\<close>

theorem C10_zone_tags:
  "(\<forall>z \<in> set (detectSupplyDemandZones klineData).
      (z_zoneType z = DBR \<or> z_zoneType z = RBD) \<and>
      (z_strength z = Strong \<or> z_strength z = Medium) \<and> z_strength z \<noteq> Weak \<and> z_isValid z \<and>
      (getZoneConfidence z = 85 \<or> getZoneConfidence z = 100)) \<and>
   (\<forall>s \<in> set (detectSupplyDemandSignals candles (detectSupplyDemandZones klineData)).
      s_confidence s = 85 \<or> s_confidence s = 100)"
proof -
  have tags: "(z_zoneType z = DBR \<or> z_zoneType z = RBD) \<and>
      (z_strength z = Strong \<or> z_strength z = Medium) \<and> z_isValid z"
    if "z \<in> set (detectSupplyDemandZones klineData)" for z
  proof -
    from that set_detectSupplyDemandZones have "z \<in> set (detect_candidates klineData)" by blast
    then show ?thesis by (elim detect_candidates_elem) (rule zone_candidates_tags)
  qed
  have conf: "getZoneConfidence z = 85 \<or> getZoneConfidence z = 100"
    if "z \<in> set (detectSupplyDemandZones klineData)" for z
    using tags[OF that] getZoneConfidence_values by blast
  have sig: "s_confidence s = 85 \<or> s_confidence s = 100"
    if "s \<in> set (detectSupplyDemandSignals candles (detectSupplyDemandZones klineData))" for s
  proof -
    from that obtain candle zone where
      z: "zone \<in> set (detectSupplyDemandZones klineData)" and s: "s \<in> set (zone_signal candle zone)"
      by (rule detectSupplyDemandSignals_elem)
    from zone_signal_elem[OF s] conf[OF z] show ?thesis by simp
  qed
  show ?thesis using tags conf sig by force
qed

theorem C10_zone_tags_witness:
  "zone_A \<in> set (detectSupplyDemandZones zone_example) \<and>
   z_zoneType zone_A = DBR \<and> z_strength zone_A = Medium \<and> z_isValid zone_A \<and>
   getZoneConfidence zone_A = 85 \<and>
   hd (zone_signal (cndl 3 110 127 110 127 1) zone_A)
     \<in> set (detectSupplyDemandSignals zone_example (detectSupplyDemandZones zone_example)) \<and>
   (s_confidence (hd (zone_signal (cndl 3 110 127 110 127 1) zone_A)) = 85 \<or>
    s_confidence (hd (zone_signal (cndl 3 110 127 110 127 1) zone_A)) = 100)"
proof -
  have a: "zone_A \<in> set (detectSupplyDemandZones zone_example)"
    by (simp add: zone_example_zones)
  have b: "getZoneConfidence zone_A = 85"
    by (simp add: getZoneConfidence_def zone_A_def)
  have c: "z_zoneType zone_A = DBR \<and> z_strength zone_A = Medium \<and> z_isValid zone_A"
    by (simp add: zone_A_def)
  from C10_zone_tags[of zone_example zone_example] zone_example_signal a b c
  show ?thesis by blast
qed

text \<open>
  Claim C6. For every candle among the 50 most recent (\<open>recentCandles\<close>) and every valid
  demand zone whose band meets the candle's range and whose low is below the candle's
  close, \<open>detectSupplyDemandSignals\<close> emits a buy signal at the close with stop
  \<open>zoneLow \<sqdot> 0.99\<close>, target \<open>zoneHigh + 2 (zoneHigh - zoneLow)\<close> and reward-risk
  \<open>(target - price) / (price - stop)\<close>. Candles before the last 50 have no influence on
  the result.
\<close>

theorem C6_demand_zone_signal:
  "(candle \<in> set (recentCandles klineData) \<and> zone \<in> set zones \<and> z_isValid zone \<and>
    z_type zone = Demand \<and> k_low candle \<le> z_high zone \<and> k_high candle \<ge> z_low zone \<and>
    z_low zone < k_close candle \<longrightarrow>
      (\<exists>s \<in> set (detectSupplyDemandSignals klineData zones).
         s_type s = Buy \<and> s_timestamp s = k_closeTime candle \<and> s_zone s = zone \<and>
         s_price s = k_close candle \<and>
         s_stopLoss s = z_low zone * 0.99 \<and>
         s_takeProfit s = z_high zone + 2 * (z_high zone - z_low zone) \<and>
         s_riskReward s = (s_takeProfit s - s_price s) / (s_price s - s_stopLoss s))) \<and>
   recentCandles klineData = drop (length klineData - 50) klineData \<and>
   (length recent = 50 \<longrightarrow>
      detectSupplyDemandSignals (older @ recent) zones = detectSupplyDemandSignals recent zones)"
proof -
  have a: "\<exists>s \<in> set (detectSupplyDemandSignals klineData zones).
         s_type s = Buy \<and> s_timestamp s = k_closeTime candle \<and> s_zone s = zone \<and>
         s_price s = k_close candle \<and>
         s_stopLoss s = z_low zone * 0.99 \<and>
         s_takeProfit s = z_high zone + 2 * (z_high zone - z_low zone) \<and>
         s_riskReward s = (s_takeProfit s - s_price s) / (s_price s - s_stopLoss s)"
    if h: "candle \<in> set (recentCandles klineData)" "zone \<in> set zones" "z_isValid zone"
      "z_type zone = Demand" "k_low candle \<le> z_high zone" "k_high candle \<ge> z_low zone"
      "z_low zone < k_close candle"
  proof -
    let ?s = "hd (zone_signal candle zone)"
    have zs: "zone_signal candle zone = [?s]"
      using zone_signal_demand[OF h(3-7)] by simp
    then have "?s \<in> set (zone_signal candle zone)" by (metis list.set_intros(1))
    then have "?s \<in> set (detectSupplyDemandSignals klineData zones)"
      using h(1,2) by (rule detectSupplyDemandSignals_intro[rotated 2])
    moreover have "s_type ?s = Buy \<and> s_timestamp ?s = k_closeTime candle \<and> s_zone ?s = zone \<and>
         s_price ?s = k_close candle \<and>
         s_stopLoss ?s = z_low zone * 0.99 \<and>
         s_takeProfit ?s = z_high zone + 2 * (z_high zone - z_low zone) \<and>
         s_riskReward ?s = (s_takeProfit ?s - s_price ?s) / (s_price ?s - s_stopLoss ?s)"
      by (simp add: zone_signal_demand[OF h(3-7)])
    ultimately show ?thesis by blast
  qed
  have b: "detectSupplyDemandSignals (older @ recent) zones = detectSupplyDemandSignals recent zones"
    if "length recent = 50"
    using that by (auto simp: detectSupplyDemandSignals_def recentCandles_def)
  show ?thesis using a b by (simp add: recentCandles_def)
qed

theorem C6_demand_zone_signal_witness:
  "cndl 3 110 127 110 127 1 \<in> set (recentCandles zone_example) \<and>
   zone_A \<in> set [zone_A, zone_C] \<and> z_isValid zone_A \<and> z_type zone_A = Demand \<and>
   k_low (cndl 3 110 127 110 127 1) \<le> z_high zone_A \<and>
   k_high (cndl 3 110 127 110 127 1) \<ge> z_low zone_A \<and>
   z_low zone_A < k_close (cndl 3 110 127 110 127 1) \<and>
   (\<exists>s \<in> set (detectSupplyDemandSignals zone_example [zone_A, zone_C]).
      s_type s = Buy \<and> s_timestamp s = 239999 \<and> s_zone s = zone_A \<and> s_price s = 127 \<and>
      s_stopLoss s = 99 \<and> s_takeProfit s = 130 \<and> s_riskReward s = 3 / 28) \<and>
   length (replicate 50 (cndl 3 110 127 110 127 1)) = 50 \<and>
   detectSupplyDemandSignals (zone_example @ replicate 50 (cndl 3 110 127 110 127 1)) [zone_A]
     = detectSupplyDemandSignals (replicate 50 (cndl 3 110 127 110 127 1)) [zone_A]"
proof -
  have h: "cndl 3 110 127 110 127 1 \<in> set (recentCandles zone_example)"
    "zone_A \<in> set [zone_A, zone_C]" "z_isValid zone_A" "z_type zone_A = Demand"
    "k_low (cndl 3 110 127 110 127 1) \<le> z_high zone_A"
    "k_high (cndl 3 110 127 110 127 1) \<ge> z_low zone_A"
    "z_low zone_A < k_close (cndl 3 110 127 110 127 1)"
    by (simp_all add: recentCandles_def zone_example_def zone_A_def cndl_def)
  have v: "k_closeTime (cndl 3 110 127 110 127 1) = 239999" "k_close (cndl 3 110 127 110 127 1) = 127"
    "z_low zone_A * 0.99 = 99" "z_high zone_A + 2 * (z_high zone_A - z_low zone_A) = 130"
    by (simp_all add: cndl_def zone_A_def)
  from C6_demand_zone_signal[of "cndl 3 110 127 110 127 1" zone_example zone_A "[zone_A, zone_C]"] h
  obtain s where s: "s \<in> set (detectSupplyDemandSignals zone_example [zone_A, zone_C])"
      "s_type s = Buy" "s_timestamp s = k_closeTime (cndl 3 110 127 110 127 1)" "s_zone s = zone_A"
      "s_price s = k_close (cndl 3 110 127 110 127 1)" "s_stopLoss s = z_low zone_A * 0.99"
      "s_takeProfit s = z_high zone_A + 2 * (z_high zone_A - z_low zone_A)"
      "s_riskReward s = (s_takeProfit s - s_price s) / (s_price s - s_stopLoss s)"
    by blast
  have s': "s_type s = Buy \<and> s_timestamp s = 239999 \<and> s_zone s = zone_A \<and> s_price s = 127 \<and>
      s_stopLoss s = 99 \<and> s_takeProfit s = 130 \<and> s_riskReward s = 3 / 28"
    using s(2-8) v by simp
  have r: "detectSupplyDemandSignals (zone_example @ replicate 50 (cndl 3 110 127 110 127 1)) [zone_A]
     = detectSupplyDemandSignals (replicate 50 (cndl 3 110 127 110 127 1)) [zone_A]"
    using C6_demand_zone_signal[of undefined "[]" undefined "[zone_A]"
        "replicate 50 (cndl 3 110 127 110 127 1)" zone_example] by simp
  show ?thesis using h s(1) s' r by auto
qed

text \<open>
  Claim C1 says that consolidation never leaves two overlapping zones of one type. On
  \<open>zone_example\<close> it does: the candidates are \<open>zone_A\<close>, \<open>zone_B\<close> and \<open>zone_C\<close>;
  \<open>zone_C\<close> overlaps both others, the backward scan meets \<open>zone_B\<close> first, replaces it
  and stops, and the weaker \<open>zone_A\<close> stays in the result next to \<open>zone_C\<close>.
\<close>

theorem C1_overlapping_zones_survive:
  "detectSupplyDemandZones zone_example = [zone_A, zone_C] \<and>
   consolidateZones [zone_A, zone_B, zone_C] = [zone_A, zone_C] \<and>
   z_type zone_A = z_type zone_C \<and>
   z_low zone_A \<le> z_high zone_C \<and> z_high zone_A \<ge> z_low zone_C \<and>
   getZoneStrengthValue (z_strength zone_A) < getZoneStrengthValue (z_strength zone_C)"
  by (simp add: zone_example_zones consolidate_ABC)
     (simp add: zone_A_def zone_C_def getZoneStrengthValue_def)

section \<open>Insufficient history\<close>

text \<open>
  Claim C8. With fewer than 10 candles \<open>detectSupplyDemandZones\<close> returns the empty
  list, and with fewer candles than the slow period (200 by default)
  \<open>detectEMABounceSignal\<close> returns the empty list: both return before any array is read.
\<close>

theorem C8_insufficient_history:
  "(length klineData < 10 \<longrightarrow> detectSupplyDemandZones klineData = []) \<and>
   (length klineData < slowLen \<longrightarrow>
      detectEMABounceSignal now klineData vwapData fastLen medLen slowLen macdFast macdSlow macdSig
        tolPct maxWait = [])"
  by (simp add: detectSupplyDemandZones_def detectEMABounceSignal_def)

theorem C8_insufficient_history_witness:
  "length [cndl 0 1 3 1 2 0] < 10 \<and> detectSupplyDemandZones [cndl 0 1 3 1 2 0] = [] \<and>
   length zone_example < 200 \<and>
   detectEMABounceSignal (clock_at 0) zone_example (calculateVWAP zone_example) 9 20 200 12 26 9 0.05 30 = []"
  using C8_insufficient_history[of "[cndl 0 1 3 1 2 0]" 0 "clock_at 0" "[]" 0 0 0 0 0 0 0]
    C8_insufficient_history[of zone_example 200 "clock_at 0" "calculateVWAP zone_example" 9 20 12 26 9 "0.05" 30]
  by (simp add: zone_example_def)

section \<open>Properties of the signals\<close>

subsection \<open>Bounce signals\<close>

lemma signals_wait_update: "signals (wait_update c b m st) = signals st"
  by (simp add: wait_update_def Let_def)























section \<open>Dependence on the clock\<close>

lemma calculateMACD_values:
  "map (\<lambda>m. (m_macd m, m_signal m, m_histogram m))
       (calculateMACD now' prices fastPeriod slowPeriod signalPeriod) =
   map (\<lambda>m. (m_macd m, m_signal m, m_histogram m))
       (calculateMACD now prices fastPeriod slowPeriod signalPeriod)"
  by (simp add: calculateMACD_def Let_def)

lemma calculateMACD_timestamps:
  "map m_timestamp (calculateMACD now prices fastPeriod slowPeriod signalPeriod) =
     map (\<lambda>i. now i - (int (length (calculateMACD now prices fastPeriod slowPeriod signalPeriod))
                         - int i - 1) * 60000)
         [0..<length (calculateMACD now prices fastPeriod slowPeriod signalPeriod)]"
  by (simp add: calculateMACD_def Let_def comp_def)

lemma calculateMACD_clock_length:
  "length (calculateMACD now' prices fastPeriod slowPeriod signalPeriod)
   = length (calculateMACD now prices fastPeriod slowPeriod signalPeriod)"
  using arg_cong[OF calculateMACD_values[of now' prices fastPeriod slowPeriod signalPeriod now],
      of length]
  by simp

lemma calculateMACD_clock_nth:
  assumes "i < length (calculateMACD now prices fastPeriod slowPeriod signalPeriod)"
  shows "m_macd (calculateMACD now' prices fastPeriod slowPeriod signalPeriod ! i)
           = m_macd (calculateMACD now prices fastPeriod slowPeriod signalPeriod ! i) \<and>
         m_signal (calculateMACD now' prices fastPeriod slowPeriod signalPeriod ! i)
           = m_signal (calculateMACD now prices fastPeriod slowPeriod signalPeriod ! i)"
proof -
  have i': "i < length (calculateMACD now' prices fastPeriod slowPeriod signalPeriod)"
    using assms by (simp add: calculateMACD_clock_length[of now' _ _ _ _ now])
  from arg_cong[OF calculateMACD_values[of now' prices fastPeriod slowPeriod signalPeriod now],
      of "\<lambda>xs. xs ! i"]
  show ?thesis using assms i' by simp
qed

lemma bounce_step_macd_cong:
  assumes "m_macd (md' ! i) = m_macd (md ! i)" "m_signal (md' ! i) = m_signal (md ! i)"
  shows "bounce_step kl vw e9 e20 e200 md' minLength tolPct maxWait i st
         = bounce_step kl vw e9 e20 e200 md minLength tolPct maxWait i st"
  unfolding bounce_step_def Let_def bounce_signal_def
  by (simp only: assms)

lemma fold_bounce_step_cong:
  assumes "\<forall>i \<in> set is. m_macd (md' ! i) = m_macd (md ! i) \<and> m_signal (md' ! i) = m_signal (md ! i)"
  shows "fold (bounce_step kl vw e9 e20 e200 md' minLength tolPct maxWait) is st
         = fold (bounce_step kl vw e9 e20 e200 md minLength tolPct maxWait) is st"
  using assms
proof (induction "is" arbitrary: st)
  case Nil
  then show ?case by simp
next
  case (Cons i "is")
  have "bounce_step kl vw e9 e20 e200 md' minLength tolPct maxWait i st
         = bounce_step kl vw e9 e20 e200 md minLength tolPct maxWait i st"
    by (rule bounce_step_macd_cong) (use Cons.prems in simp_all)
  with Cons show ?case by simp
qed

lemma detectEMABounceSignal_clock:
  "detectEMABounceSignal now' kl vw fastLen medLen slowLen macdFast macdSlow macdSig tolPct maxWait
   = detectEMABounceSignal now kl vw fastLen medLen slowLen macdFast macdSlow macdSig tolPct maxWait"
proof -
  let ?md = "calculateMACD now (map k_close kl) macdFast macdSlow macdSig"
  let ?md' = "calculateMACD now' (map k_close kl) macdFast macdSlow macdSig"
  let ?ml = "min (length (calculateEMA (map k_close kl) slowLen)) (min (length ?md) (length vw))"
  have len: "length ?md' = length ?md" by (rule calculateMACD_clock_length)
  have "fold (bounce_step kl vw (calculateEMA (map k_close kl) fastLen)
            (calculateEMA (map k_close kl) medLen) (calculateEMA (map k_close kl) slowLen)
            ?md' ?ml tolPct maxWait) [1..<?ml]
          \<lparr>waitBounce = False, barsWaited = 0, signals = []\<rparr>
      = fold (bounce_step kl vw (calculateEMA (map k_close kl) fastLen)
            (calculateEMA (map k_close kl) medLen) (calculateEMA (map k_close kl) slowLen)
            ?md ?ml tolPct maxWait) [1..<?ml]
          \<lparr>waitBounce = False, barsWaited = 0, signals = []\<rparr>"
    by (rule fold_bounce_step_cong) (simp add: calculateMACD_clock_nth)
  then show ?thesis
    unfolding detectEMABounceSignal_def Let_def len by simp
qed

lemma macd_flat: "calculateMACD now (replicate 34 100) 12 26 9 =
   [\<lparr>m_timestamp = now 0, m_macd = 0, m_signal = 0, m_histogram = 0\<rparr>]"
proof -
  have f: "calculateEMA (replicate 34 100) 12 = replicate 23 100"
    using calculateEMA_replicate[of 12 34 100] by simp
  have s: "calculateEMA (replicate 34 100) 26 = replicate 9 100"
    using calculateEMA_replicate[of 26 34 100] by simp
  have ml: "map (\<lambda>i. replicate 23 (100::real) ! nat (int i + (int 26 - int 12)) - replicate 9 100 ! i)
              [0..<length (replicate 9 (100::real))]
            = replicate 9 0"
    by (rule nth_equalityI) simp_all
  have sl: "calculateEMA (replicate 9 0) 9 = [0]"
    using calculateEMA_replicate[of 9 9 0] by simp
  show ?thesis
    unfolding calculateMACD_def Let_def f s ml sl
    by simp
qed

text \<open>
  Claim C2 says that two invocations on the same candles and configuration return
  identical outputs, MACD time stamps included. \<open>calculateMACD\<close> stamps its points from
  \<open>Date.now()\<close>, so two calls on the same 34 prices, one while the clock reads 0 and one
  while it reads 60000, return different lists.
\<close>

theorem C2_counterexample:
  "calculateMACD (clock_at 0) (replicate 34 100) 12 26 9
   \<noteq> calculateMACD (clock_at 60000) (replicate 34 100) 12 26 9"
  by (simp add: macd_flat clock_at_def)

text \<open>
  Claim C2, amended. For fixed candles and configuration the outputs of two invocations
  are identical except for the MACD time stamps. The values \<open>macd\<close>, \<open>signal\<close> and
  \<open>histogram\<close> of every MACD point do not depend on the clock; the time stamp of point
  \<open>i\<close> of \<open>n\<close> is the clock reading at that point minus \<open>(n - i - 1) \<sqdot> 60000\<close>. The
  result of \<open>analyzeData\<close> under other clock readings differs in \<open>macdData\<close> only: all
  other fields (EMA, VWAP, zones, both signal lists and \<open>allSignals\<close>) are the same.
\<close>

theorem C2_clock:
  "map (\<lambda>m. (m_macd m, m_signal m, m_histogram m))
       (calculateMACD now' prices fastPeriod slowPeriod signalPeriod) =
   map (\<lambda>m. (m_macd m, m_signal m, m_histogram m))
       (calculateMACD now prices fastPeriod slowPeriod signalPeriod) \<and>
   map m_timestamp (calculateMACD now prices fastPeriod slowPeriod signalPeriod) =
     map (\<lambda>i. now i - (int (length (calculateMACD now prices fastPeriod slowPeriod signalPeriod))
                         - int i - 1) * 60000)
         [0..<length (calculateMACD now prices fastPeriod slowPeriod signalPeriod)] \<and>
   analyzeData now1' now2' ex tt symbol tf klineData =
     (analyzeData now1 now2 ex tt symbol tf klineData)
       \<lparr>r_macdData := calculateMACD now1' (map k_close klineData) 12 26 9\<rparr>"
proof -
  have "analyzeData now1' now2' ex tt symbol tf klineData =
     (analyzeData now1 now2 ex tt symbol tf klineData)
       \<lparr>r_macdData := calculateMACD now1' (map k_close klineData) 12 26 9\<rparr>"
    unfolding analyzeData_def Let_def
      detectEMABounceSignal_clock[of now2' _ _ _ _ _ _ _ _ _ _ now2]
    by simp
  then show ?thesis using calculateMACD_values calculateMACD_timestamps by blast
qed

section \<open>The merged signal list\<close>

subsection \<open>Order within each detector's output\<close>

lemma sorted_map_const: "\<forall>x \<in> set xs. f x = (a::int) \<Longrightarrow> sorted (map f xs)"
  by (induction xs) auto

lemma zone_block_timestamp:
  "s \<in> set (concat (map (zone_signal c) zones)) \<Longrightarrow> s_timestamp s = k_closeTime c"
  by (auto simp: zone_signal_elem)

lemma zone_signals_sorted:
  "sorted (map k_closeTime cs) \<Longrightarrow>
   sorted (map s_timestamp (concat (map (\<lambda>c. concat (map (zone_signal c) zones)) cs)))"
proof (induction cs)
  case Nil
  then show ?case by simp
next
  case (Cons c cs)
  let ?block = "concat (map (zone_signal c) zones)"
  let ?rest = "concat (map (\<lambda>c. concat (map (zone_signal c) zones)) cs)"
  have b: "sorted (map s_timestamp ?block)"
    by (rule sorted_map_const[of _ _ "k_closeTime c"]) (simp add: zone_block_timestamp)
  have r: "sorted (map s_timestamp ?rest)" using Cons by simp
  have "s_timestamp x \<le> s_timestamp y" if "x \<in> set ?block" "y \<in> set ?rest" for x y
  proof -
    from that(2) obtain c' where c': "c' \<in> set cs" "y \<in> set (concat (map (zone_signal c') zones))"
      by auto
    have "k_closeTime c \<le> k_closeTime c'" using Cons.prems c'(1) by auto
    then show ?thesis using zone_block_timestamp[OF that(1)] zone_block_timestamp[OF c'(2)] by simp
  qed
  then show ?case using b r by (simp add: sorted_append) blast
qed

lemma detectSupplyDemandSignals_sorted:
  assumes "sorted (map k_closeTime kl)"
  shows "sorted (map s_timestamp (detectSupplyDemandSignals kl zones))"
proof -
  have "sorted (drop (length kl - 50) (map k_closeTime kl))"
    using assms by (rule sorted_wrt_drop)
  then have "sorted (map k_closeTime (recentCandles kl))"
    by (simp add: recentCandles_def drop_map)
  then show ?thesis
    by (simp add: detectSupplyDemandSignals_def zone_signals_sorted)
qed

lemma bounce_step_timestamp:
  "signals (bounce_step kl vw e9 e20 e200 md minLength tolPct maxWait i st) = signals st \<or>
   (\<exists>s. signals (bounce_step kl vw e9 e20 e200 md minLength tolPct maxWait i st) = signals st @ [s] \<and>
        b_timestamp s = k_closeTime (kl ! nat (int (length kl) - int minLength + int i)))"
  by (simp add: bounce_step_def Let_def signals_wait_update bounce_signal_def split: option.splits)

lemma bounce_fold_sorted:
  assumes init: "signals st0 = []"
    and srt: "sorted (map k_closeTime kl)" and ml: "minLength \<le> length kl + 1"
  shows "1 \<le> n \<Longrightarrow> n \<le> minLength \<Longrightarrow>
     sorted (map b_timestamp
       (signals (fold (bounce_step kl vw e9 e20 e200 md minLength tolPct maxWait) [1..<n] st0))) \<and>
     (\<forall>s \<in> set (signals (fold (bounce_step kl vw e9 e20 e200 md minLength tolPct maxWait) [1..<n] st0)).
        s \<in> set (signals st0) \<or>
        (\<exists>k. k < nat (int (length kl) - int minLength + int n) \<and> b_timestamp s = k_closeTime (kl ! k)))"
proof (induction n)
  case 0
  then show ?case by simp
next
  case (Suc n)
  let ?F = "\<lambda>n. fold (bounce_step kl vw e9 e20 e200 md minLength tolPct maxWait) [1..<n] st0"
  let ?J = "\<lambda>n. nat (int (length kl) - int minLength + int n)"
  show ?case
  proof (cases "n = 0")
    case True
    then show ?thesis by (simp add: init)
  next
    case False
    then have n: "1 \<le> n" "n < minLength" using Suc.prems by auto
    have IH: "sorted (map b_timestamp (signals (?F n)))"
      "\<forall>s \<in> set (signals (?F n)). \<exists>k. k < ?J n \<and> b_timestamp s = k_closeTime (kl ! k)"
      using Suc.IH n init by auto
    have F: "?F (Suc n) = bounce_step kl vw e9 e20 e200 md minLength tolPct maxWait n (?F n)"
      using n by simp
    have J: "?J n < length kl" "?J (Suc n) = Suc (?J n)" using n ml by auto
    from bounce_step_timestamp[of kl vw e9 e20 e200 md minLength tolPct maxWait n "?F n"]
    show ?thesis
    proof
      assume "signals (bounce_step kl vw e9 e20 e200 md minLength tolPct maxWait n (?F n))
              = signals (?F n)"
      then show ?thesis using IH J unfolding F by (auto simp: init intro: less_SucI)
    next
      assume "\<exists>s. signals (bounce_step kl vw e9 e20 e200 md minLength tolPct maxWait n (?F n))
                   = signals (?F n) @ [s] \<and> b_timestamp s = k_closeTime (kl ! ?J n)"
      then obtain s where s: "signals (bounce_step kl vw e9 e20 e200 md minLength tolPct maxWait n (?F n))
                   = signals (?F n) @ [s]" "b_timestamp s = k_closeTime (kl ! ?J n)" by blast
      have le: "b_timestamp x \<le> b_timestamp s" if "x \<in> set (signals (?F n))" for x
      proof -
        from IH(2) that obtain k where k: "k < ?J n" "b_timestamp x = k_closeTime (kl ! k)" by blast
        have "map k_closeTime kl ! k \<le> map k_closeTime kl ! ?J n"
          using srt k(1) J(1) by (intro sorted_nth_mono) auto
        then show ?thesis using k J(1) s(2) by simp
      qed
      have "sorted (map b_timestamp (signals (?F n) @ [s]))"
        using IH(1) le by (simp add: sorted_append)
      moreover have "\<forall>x \<in> set (signals (?F n) @ [s]).
          \<exists>k. k < ?J (Suc n) \<and> b_timestamp x = k_closeTime (kl ! k)"
        using IH(2) s(2) J(2) by (auto intro: less_SucI)
      ultimately show ?thesis unfolding F s(1) by (simp add: init)
    qed
  qed
qed

lemma detectEMABounceSignal_sorted:
  assumes "sorted (map k_closeTime kl)"
  shows "sorted (map b_timestamp
           (detectEMABounceSignal now kl vw fastLen medLen slowLen macdFast macdSlow macdSig tolPct maxWait))"
proof (cases "length kl < slowLen")
  case True
  then show ?thesis by (simp add: detectEMABounceSignal_def)
next
  case False
  define minLength where "minLength = min (length (calculateEMA (map k_close kl) slowLen))
     (min (length (calculateMACD now (map k_close kl) macdFast macdSlow macdSig)) (length vw))"
  have "length (calculateEMA (map k_close kl) slowLen) = length kl - slowLen + 1"
    using False by (simp add: calculateEMA_length)
  then have le: "minLength \<le> length kl + 1" by (simp add: minLength_def)
  let ?F = "fold (bounce_step kl vw (calculateEMA (map k_close kl) fastLen)
            (calculateEMA (map k_close kl) medLen) (calculateEMA (map k_close kl) slowLen)
            (calculateMACD now (map k_close kl) macdFast macdSlow macdSig) minLength tolPct maxWait)
          [1..<minLength] \<lparr>waitBounce = False, barsWaited = 0, signals = []\<rparr>"
  have "sorted (map b_timestamp (signals ?F))"
  proof (cases "minLength = 0")
    case True
    then show ?thesis by simp
  next
    case False
    then show ?thesis
      using bounce_fold_sorted[OF _ assms le, of "\<lparr>waitBounce = False, barsWaited = 0, signals = []\<rparr>" minLength]
      by simp
  qed
  then show ?thesis using False
    by (simp add: detectEMABounceSignal_def Let_def minLength_def)
qed

subsection \<open>An input on which both detectors fire\<close>

lemma big_example_nth: "i < 201 \<Longrightarrow> big_example ! i = big_candle i"
  by (simp add: big_example_def)

lemma big_example_length: "length big_example = 201"
  by (simp add: big_example_def)

lemma big_closes_nth:
  assumes "i < 201"
  shows "big_closes ! i = k_close (big_candle i)"
proof -
  consider "i < 34" | "i = 34" | "i = 35" | "i = 36" | "37 \<le> i \<and> i < 200" | "i = 200"
    using assms by linarith
  then show ?thesis
  proof cases
    case 1
    then show ?thesis by (simp add: big_closes_def nth_append big_candle_def cndl_def)
  next
    case 2
    then show ?thesis by (simp add: big_closes_def nth_append big_candle_def cndl_def)
  next
    case 3
    then show ?thesis by (simp add: big_closes_def nth_append big_candle_def cndl_def)
  next
    case 4
    then show ?thesis by (simp add: big_closes_def nth_append big_candle_def cndl_def)
  next
    case 5
    then have "i - 34 - 3 < 163" "\<not> i < 34" "\<not> i - 34 < 3" by auto
    then show ?thesis using 5
      by (simp add: big_closes_def nth_append big_candle_def cndl_def)
  next
    case 6
    then show ?thesis by (simp add: big_closes_def nth_append big_candle_def cndl_def)
  qed
qed

lemma big_example_closes: "map k_close big_example = big_closes"
proof (rule nth_equalityI)
  show "length (map k_close big_example) = length big_closes"
    by (simp add: big_example_def big_closes_def)
next
  fix i assume "i < length (map k_close big_example)"
  then have i: "i < 201" by (simp add: big_example_def)
  then show "map k_close big_example ! i = big_closes ! i"
    by (simp add: big_closes_nth big_example_def)
qed

lemma calculateEMA_flat_start:
  assumes "0 < p" "p \<le> n"
  shows "calculateEMA (replicate n c @ ys) p
         = fold (ema_step (2 / (real p + 1))) ys (replicate (n - p + 1) c)"
  using assms calculateEMA_append[of p "replicate n c" ys] calculateEMA_replicate[of p n c]
  by simp

lemma fold_ema_step_flat:
  "fold (ema_step m) (replicate k c @ zs) (acc @ [c])
   = fold (ema_step m) zs (acc @ replicate (Suc k) c)"
  by (simp only: fold_append comp_apply fold_ema_step_const)

lemma big_ema9:
  "calculateEMA big_closes 9 = replicate 26 100 @ [100.21, 99.81] @ replicate 164 100 @ [102]"
proof -
  have m: "2 / (real 9 + 1) = 1 / 5" by simp
  have a: "fold (ema_step (1 / 5)) [101.05, 98.21, 100.76] (replicate 26 100)
           = (replicate 26 100 @ [100.21, 99.81]) @ [100]"
    by (simp add: ema_step_def)
  have b: "fold (ema_step (1 / 5)) [110] ((replicate 26 100 @ [100.21, 99.81]) @ replicate (Suc 163) 100)
           = replicate 26 100 @ [100.21, 99.81] @ replicate 164 100 @ [102]"
    by (simp add: ema_step_def)
  have "calculateEMA big_closes 9
        = fold (ema_step (1 / 5)) ([101.05, 98.21, 100.76] @ replicate 163 100 @ [110])
            (replicate 26 100)"
    unfolding big_closes_def using calculateEMA_flat_start[of 9 34 100] by (simp only: m) simp
  also have "\<dots> = fold (ema_step (1 / 5)) (replicate 163 100 @ [110])
                     ((replicate 26 100 @ [100.21, 99.81]) @ [100])"
    by (simp only: fold_append comp_apply a)
  also have "\<dots> = fold (ema_step (1 / 5)) [110]
                     ((replicate 26 100 @ [100.21, 99.81]) @ replicate (Suc 163) 100)"
    by (rule fold_ema_step_flat)
  also note b
  finally show ?thesis .
qed

lemma big_ema20:
  "calculateEMA big_closes 20 = replicate 15 100 @ [100.1, 99.92] @ replicate 164 100 @ [2120 / 21]"
proof -
  have m: "2 / (real 20 + 1) = 2 / 21" by simp
  have a: "fold (ema_step (2 / 21)) [101.05, 98.21, 100.76] (replicate 15 100)
           = (replicate 15 100 @ [100.1, 99.92]) @ [100]"
    by (simp add: ema_step_def)
  have b: "fold (ema_step (2 / 21)) [110] ((replicate 15 100 @ [100.1, 99.92]) @ replicate (Suc 163) 100)
           = replicate 15 100 @ [100.1, 99.92] @ replicate 164 100 @ [2120 / 21]"
    by (simp add: ema_step_def)
  have "calculateEMA big_closes 20
        = fold (ema_step (2 / 21)) ([101.05, 98.21, 100.76] @ replicate 163 100 @ [110])
            (replicate 15 100)"
    unfolding big_closes_def using calculateEMA_flat_start[of 20 34 100] by (simp only: m) simp
  also have "\<dots> = fold (ema_step (2 / 21)) (replicate 163 100 @ [110])
                     ((replicate 15 100 @ [100.1, 99.92]) @ [100])"
    by (simp only: fold_append comp_apply a)
  also have "\<dots> = fold (ema_step (2 / 21)) [110]
                     ((replicate 15 100 @ [100.1, 99.92]) @ replicate (Suc 163) 100)"
    by (rule fold_ema_step_flat)
  also note b
  finally show ?thesis .
qed

lemma big_ema200: "calculateEMA big_closes 200 = [100.0001, 67066733 / 670000]"
proof -
  let ?first = "replicate 34 100 @ [101.05, 98.21, 100.76] @ replicate 163 (100::real)"
  have c: "big_closes = ?first @ [110]" by (simp add: big_closes_def)
  have len: "length ?first = 200" by simp
  have s: "sum_list ?first = 20000.02" by (simp add: sum_list_replicate)
  have "calculateEMA ?first 200 = [100.0001]"
    unfolding calculateEMA_def Let_def fold_add_sum_list using len s by simp
  then show ?thesis
    unfolding c using calculateEMA_append[of 200 ?first "[110]"] len
    by (simp add: ema_step_def)
qed

lemma calculateEMA_nth_prefix:
  assumes "p \<le> length xs" "k < length xs - p + 1"
  shows "calculateEMA (xs @ ys) p ! k = calculateEMA xs p ! k"
proof -
  have "k < length (calculateEMA xs p)" using assms by (simp add: calculateEMA_length)
  then show ?thesis
    unfolding calculateEMA_append[OF assms(1)] by (rule fold_ema_step_prefix)
qed

lemma big_closes_split:
  "big_closes = (replicate 34 100 @ [101.05]) @ ([98.21, 100.76] @ replicate 163 100 @ [110])"
  by (simp add: big_closes_def)

lemma big_ema12_nth:
  assumes "k < 24"
  shows "calculateEMA big_closes 12 ! k = (replicate 23 100 @ [13021 / 130]) ! k"
proof -
  have "calculateEMA (replicate 34 100 @ [101.05]) 12 = replicate 23 100 @ [13021 / 130]"
    using calculateEMA_flat_start[of 12 34 100 "[101.05]"]
    by (simp add: ema_step_def)
  then show ?thesis
    unfolding big_closes_split using assms calculateEMA_nth_prefix[of 12 "replicate 34 100 @ [101.05]" k]
    by simp
qed

lemma big_ema26_nth:
  assumes "k < 10"
  shows "calculateEMA big_closes 26 ! k = (replicate 9 100 @ [27021 / 270]) ! k"
proof -
  have "calculateEMA (replicate 34 100 @ [101.05]) 26 = replicate 9 100 @ [27021 / 270]"
    using calculateEMA_flat_start[of 26 34 100 "[101.05]"]
    by (simp add: ema_step_def)
  then show ?thesis
    unfolding big_closes_split using assms calculateEMA_nth_prefix[of 26 "replicate 34 100 @ [101.05]" k]
    by simp
qed

lemma big_closes_length: "length big_closes = 201"
  by (simp add: big_closes_def)

lemma big_macd:
  "length (calculateMACD now big_closes 12 26 9) = 168 \<and>
   m_macd (calculateMACD now big_closes 12 26 9 ! 1) = 49 / 585 \<and>
   m_signal (calculateMACD now big_closes 12 26 9 ! 1) = 49 / 2925"
proof -
  define fastEMA where "fastEMA = calculateEMA big_closes 12"
  define slowEMA where "slowEMA = calculateEMA big_closes 26"
  define macdLine where "macdLine = map (\<lambda>i. fastEMA ! nat (int i + (int 26 - int 12)) - slowEMA ! i)
                            [0..<length slowEMA]"
  define signalLine where "signalLine = calculateEMA macdLine 9"
  have lf: "length fastEMA = 190" and ls: "length slowEMA = 176"
    by (simp_all add: fastEMA_def slowEMA_def calculateEMA_length big_closes_length)
  have lm: "length macdLine = 176" by (simp add: macdLine_def ls)
  have lsig: "length signalLine = 168" by (simp add: signalLine_def calculateEMA_length lm)
  have ml0: "macdLine ! i = 0" if "i < 9" for i
  proof -
    have "fastEMA ! (i + 14) = 100" using that big_ema12_nth[of "i + 14"]
      by (simp add: fastEMA_def nth_append)
    moreover have "slowEMA ! i = 100" using that big_ema26_nth[of i]
      by (simp add: slowEMA_def nth_append)
    moreover have "nat (int i + (int 26 - int 12)) = i + 14" by simp
    ultimately show ?thesis using that by (simp add: macdLine_def ls)
  qed
  have ml9: "macdLine ! 9 = 49 / 585"
  proof -
    have "fastEMA ! 23 = 13021 / 130" using big_ema12_nth[of 23]
      by (simp add: fastEMA_def nth_append)
    moreover have "slowEMA ! 9 = 27021 / 270" using big_ema26_nth[of 9]
      by (simp add: slowEMA_def nth_append)
    ultimately show ?thesis by (simp add: macdLine_def ls)
  qed
  have "take 9 macdLine = replicate 9 0"
    by (rule nth_equalityI) (simp_all add: lm ml0)
  then have s0: "signalLine ! 0 = 0"
    unfolding signalLine_def using calculateEMA_first[of 9 macdLine] lm
    by (simp add: sum_list_replicate)
  have s1: "signalLine ! 1 = 49 / 2925"
    unfolding signalLine_def using calculateEMA_rec[of 9 macdLine 1] lm s0 ml9
    by (simp add: signalLine_def)
  have md: "calculateMACD now big_closes 12 26 9 =
      map (\<lambda>i. let macdIndex = nat (int i + (int (length macdLine) - int (length signalLine)))
                in \<lparr>m_timestamp = now i - (int (length signalLine) - int i - 1) * 60000,
                    m_macd = macdLine ! macdIndex,
                    m_signal = signalLine ! i,
                    m_histogram = macdLine ! macdIndex - signalLine ! i\<rparr>)
          [0..<length signalLine]"
    unfolding calculateMACD_def Let_def signalLine_def macdLine_def fastEMA_def[symmetric]
      slowEMA_def[symmetric]
    using lf ls by simp
  have s1': "signalLine ! Suc 0 = 49 / 2925" using s1 by simp
  show ?thesis
    unfolding md by (simp add: lsig lm Let_def ml9 s1')
qed

lemma big_volumes: "\<forall>c \<in> set big_example. k_volume c = 0"
  by (auto simp: big_example_def big_candle_def cndl_def)

lemma big_vwap:
  "length (calculateVWAP big_example) = 201 \<and> v_vwap (calculateVWAP big_example ! 200) = 320 / 3"
proof -
  have "sum_list (map k_volume (take (Suc 200) big_example)) = 0"
    using big_volumes by (rule sum_list_zero_volume)
  then have "v_vwap (calculateVWAP big_example ! 200) = typicalPrice (big_example ! 200)"
    using calculateVWAP_nth[of 200 big_example] by (simp add: big_example_length)
  then show ?thesis
    by (simp add: calculateVWAP_length big_example_length big_example_nth big_candle_def
        typicalPrice_def cndl_def)
qed

lemma bounce_step_fires:
  assumes e9: "js_nth e9 (int (length e9) - int minLength + int i) = Some a"
    and e20: "js_nth e20 (int (length e20) - int minLength + int i) = Some b"
    and cross: "js_le (js_nth e9 (int (length e9) - int minLength + int i - 1))
                      (js_nth e20 (int (length e20) - int minLength + int i - 1))"
    and stack: "a > b" "b > e200 ! i"
    and wait: "0 \<le> maxWait"
    and c: "c = kl ! nat (int (length kl) - int minLength + int i)"
    and v: "v = (case js_nth vw (int (length vw) - int minLength + int i) of
                   None \<Rightarrow> 0 | Some p \<Rightarrow> v_vwap p)"
    and bounce: "k_low c \<le> a * (1 + tolPct / 100)" "k_close c > a"
    and above: "k_close c > v"
    and macd: "m_macd (md ! i) > m_signal (md ! i)"
  shows "signals (bounce_step kl vw e9 e20 e200 md minLength tolPct maxWait i st)
         = signals st @ [bounce_signal c a b (e200 ! i) v (md ! i) (a * (1 + tolPct / 100))
                           True True True True]"
proof -
  have w: "wait_update True True maxWait st = st\<lparr>waitBounce := True, barsWaited := 0\<rparr>"
    using wait by (simp add: wait_update_def)
  have "a > e200 ! i" using stack by simp
  then show ?thesis
    unfolding bounce_step_def Let_def e9 e20 c[symmetric] v[symmetric]
    using cross stack bounce above macd by (simp add: w)
qed

lemma big_bounce:
  "\<exists>s. detectEMABounceSignal now big_example (calculateVWAP big_example) 9 20 200 12 26 9 0.05 30 = [s]
       \<and> b_timestamp s = 12059999"
proof -
  let ?vw = "calculateVWAP big_example"
  let ?e9 = "calculateEMA big_closes 9"
  let ?e20 = "calculateEMA big_closes 20"
  let ?e200 = "calculateEMA big_closes 200"
  let ?md = "calculateMACD now big_closes 12 26 9"
  let ?init = "\<lparr>waitBounce = False, barsWaited = 0, signals = []\<rparr>"
  let ?sig = "bounce_signal (big_candle 200) 102 (2120 / 21) (?e200 ! 1) (320 / 3) (?md ! 1)
                (102 * (1 + 0.05 / 100)) True True True True"
  have l9: "length ?e9 = 193" and l20: "length ?e20 = 182"
    by (simp_all add: calculateEMA_length big_closes_length)
  have n9: "?e9 ! 192 = 102" "?e9 ! 191 = 100"
    by (simp_all add: big_ema9 nth_append)
  have n20: "?e20 ! 181 = 2120 / 21" "?e20 ! 180 = 100"
    by (simp_all add: big_ema20 nth_append)
  have n200: "?e200 ! 1 = 67066733 / 670000" by (simp add: big_ema200)
  have lv: "length ?vw = 201" and nv: "v_vwap (?vw ! 200) = 320 / 3"
    using big_vwap by simp_all
  have lm: "length ?md = 168" and nm: "m_macd (?md ! 1) = 49 / 585" "m_signal (?md ! 1) = 49 / 2925"
    using big_macd[of now] by simp_all
  have step: "signals (bounce_step big_example ?vw ?e9 ?e20 ?e200 ?md 2 0.05 30 1 ?init)
              = signals ?init @ [?sig]"
  proof (rule bounce_step_fires)
    show "js_nth ?e9 (int (length ?e9) - int 2 + int 1) = Some 102"
      by (simp add: js_nth_def l9 n9)
    show "js_nth ?e20 (int (length ?e20) - int 2 + int 1) = Some (2120 / 21)"
      by (simp add: js_nth_def l20 n20)
    show "js_le (js_nth ?e9 (int (length ?e9) - int 2 + int 1 - 1))
                (js_nth ?e20 (int (length ?e20) - int 2 + int 1 - 1))"
      by (simp add: js_nth_def js_le_def l9 l20 n9 n20)
    show "(2120 / 21 :: real) < 102" by simp
    show "?e200 ! 1 < 2120 / 21" unfolding n200 by simp
    show "(0::int) \<le> 30" by simp
    show "big_candle 200 = big_example ! nat (int (length big_example) - int 2 + int 1)"
      by (simp add: big_example_length big_example_nth)
    show "320 / 3 = (case js_nth ?vw (int (length ?vw) - int 2 + int 1) of
                       None \<Rightarrow> 0 | Some p \<Rightarrow> v_vwap p)"
      by (simp add: js_nth_def lv nv)
    show "k_low (big_candle 200) \<le> 102 * (1 + 0.05 / 100)"
      by (simp add: big_candle_def cndl_def)
    show "102 < k_close (big_candle 200)" by (simp add: big_candle_def cndl_def)
    show "320 / 3 < k_close (big_candle 200)" by (simp add: big_candle_def cndl_def)
    show "m_signal (?md ! 1) < m_macd (?md ! 1)" unfolding nm by simp
  qed
  have ml: "min (length ?e200) (min (length ?md) (length ?vw)) = 2"
    by (simp add: big_ema200 lm lv)
  have u: "[1..<2] = [1::nat]" by (simp add: upt_rec)
  have nl: "\<not> length big_example < 200" by (simp add: big_example_length)
  have "detectEMABounceSignal now big_example ?vw 9 20 200 12 26 9 0.05 30 = [?sig]"
    unfolding detectEMABounceSignal_def Let_def big_example_closes
    unfolding ml u
    using nl step
    by (simp only: if_False fold.simps comp_apply id_apply bounce_state.select_convs append_Nil)
  moreover have "b_timestamp ?sig = 12059999"
    by (simp add: bounce_signal_def big_candle_def cndl_def Let_def)
  ultimately show ?thesis by blast
qed

lemma concat_map_Nil: "\<forall>x \<in> set xs. f x = [] \<Longrightarrow> concat (map f xs) = []"
  by (induction xs) auto

lemma big_flat_candidates:
  assumes "2 \<le> i" "i < 199" "i < 34 \<or> 37 < i"
  shows "zone_candidates big_example i = []"
proof -
  have a: "big_example ! i = cndl (int i) 100 100 100 100 0"
    using assms by (auto simp: big_example_nth big_candle_def)
  have b: "big_example ! (i - 1) = cndl (int (i - 1)) 100 100 100 100 0"
    using assms by (auto simp: big_example_nth big_candle_def)
  show ?thesis
    unfolding zone_candidates_def Let_def a b by (simp add: cndl_def)
qed

lemma big_special_candidates:
  "zone_candidates big_example 34 = [big_D1]" "zone_candidates big_example 35 = [big_S2]"
  "zone_candidates big_example 36 = [big_D3]" "zone_candidates big_example 37 = [big_S4]"
  by (simp_all add: zone_candidates_def Let_def big_example_nth big_candle_def cndl_def
      big_D1_def big_S2_def big_D3_def big_S4_def)

lemma big_candidates: "detect_candidates big_example = [big_D1, big_S2, big_D3, big_S4]"
proof -
  have u: "[2..<199] = [2..<34] @ [34, 35, 36, 37] @ [38..<199]"
  proof -
    have a: "[2..<199] = [2..<34] @ [34..<199]"
      using upt_add_eq_append[of 2 34 165] by simp
    have b: "[34..<199] = [34..<38] @ [38..<199]"
      using upt_add_eq_append[of 34 38 161] by simp
    have "[2..<199] = [2..<34] @ [34..<38] @ [38..<199]"
      by (simp only: a b)
    moreover have "[34..<38] = [34, 35, 36, 37::nat]" by (simp add: upt_rec)
    ultimately show ?thesis by simp
  qed
  have lo: "concat (map (zone_candidates big_example) [2..<34]) = []"
    by (rule concat_map_Nil) (auto intro: big_flat_candidates)
  have hi: "concat (map (zone_candidates big_example) [38..<199]) = []"
    by (rule concat_map_Nil) (auto intro: big_flat_candidates)
  show ?thesis
    unfolding detect_candidates_def big_example_length
    using lo hi by (simp add: u big_special_candidates)
qed

lemma big_zones: "detectSupplyDemandZones big_example = [big_D1, big_S2]"
proof -
  have "consolidateZones [big_D1, big_S2, big_D3, big_S4] = [big_D1, big_S2]"
    by (simp add: consolidateZones_def consolidate_step_def zones_overlap_def
        getZoneStrengthValue_def big_D1_def big_S2_def big_D3_def big_S4_def numeral_2_eq_2)
  then show ?thesis
    by (simp add: detectSupplyDemandZones_def big_example_length big_candidates)
qed

lemma big_zone_signal:
  "\<exists>s \<in> set (detectSupplyDemandSignals big_example (detectSupplyDemandZones big_example)).
     s_timestamp s = 11999999"
proof -
  have c: "big_candle 199 \<in> set (recentCandles big_example)"
  proof -
    have "drop 151 big_example ! 48 \<in> set (drop 151 big_example)"
      by (rule nth_mem) (simp add: big_example_length)
    then show ?thesis by (simp add: recentCandles_def big_example_length big_example_nth)
  qed
  have z: "big_S2 \<in> set (detectSupplyDemandZones big_example)" by (simp add: big_zones)
  have s: "zone_signal (big_candle 199) big_S2 \<noteq> []"
    by (simp add: zone_signal_def Let_def big_candle_def cndl_def big_S2_def)
  then have h: "hd (zone_signal (big_candle 199) big_S2) \<in> set (zone_signal (big_candle 199) big_S2)"
    by simp
  have "hd (zone_signal (big_candle 199) big_S2)
          \<in> set (detectSupplyDemandSignals big_example (detectSupplyDemandZones big_example))"
    using c z h by (rule detectSupplyDemandSignals_intro)
  moreover have "s_timestamp (hd (zone_signal (big_candle 199) big_S2)) = 11999999"
    using zone_signal_elem[OF h] by (simp add: big_candle_def cndl_def)
  ultimately show ?thesis by blast
qed

lemma big_example_ascending: "sorted_wrt (<) (map k_closeTime big_example)"
proof -
  have "map k_closeTime big_example = map (\<lambda>t. int t * 60000 + 59999) [0..<201]"
    by (simp add: big_example_def big_candle_def cndl_def)
  then show ?thesis by (simp add: sorted_wrt_map)
qed

text \<open>
  Claim C3 says that \<open>allSignals\<close> is ordered by time stamp. On \<open>big_example\<close>, whose
  close times are strictly ascending, the bounce detector fires at the last candle
  (close time 12059999): there the fast average rises from 100 to 102, the medium one
  from 100 to 2120/21 and the slow one to 67066733/670000, the low 100 is within the
  tolerance band, the close 110 is above the VWAP 320/3, and the MACD point read, point 1,
  has \<open>macd\<close> 49/585 above \<open>signal\<close> 49/2925. The zone detector keeps the demand zone
  100 to 101.05 and the supply zone 98.21 to 101.05 and fires at each of the 50 last
  candles (from close time 9119999 on). \<open>allSignals\<close> lists the bounce signal first.
\<close>

theorem C3_counterexample:
  "sorted_wrt (<) (map k_closeTime big_example) \<and>
   \<not> sorted (map t_timestamp
        (r_allSignals (analyzeData (clock_at 0) (clock_at 0) Binance Spot ''BTCUSDT'' TF_1m big_example)))"
proof -
  obtain b where b: "detectEMABounceSignal (clock_at 0) big_example (calculateVWAP big_example)
                       9 20 200 12 26 9 0.05 30 = [b]" "b_timestamp b = 12059999"
    using big_bounce[of "clock_at 0"] by blast
  obtain s where s: "s \<in> set (detectSupplyDemandSignals big_example
                                  (detectSupplyDemandZones big_example))"
      "s_timestamp s = 11999999"
    using big_zone_signal by blast
  have eq: "r_allSignals (analyzeData (clock_at 0) (clock_at 0) Binance Spot ''BTCUSDT'' TF_1m big_example)
            = map (ema_signal Binance Spot ''BTCUSDT'' TF_1m) [b]
              @ map (sd_signal Binance Spot ''BTCUSDT'' TF_1m)
                  (detectSupplyDemandSignals big_example (detectSupplyDemandZones big_example))"
    unfolding analyzeData_def Let_def b(1) by simp
  have "\<not> sorted (map t_timestamp
        (r_allSignals (analyzeData (clock_at 0) (clock_at 0) Binance Spot ''BTCUSDT'' TF_1m big_example)))"
  proof
    assume "sorted (map t_timestamp
        (r_allSignals (analyzeData (clock_at 0) (clock_at 0) Binance Spot ''BTCUSDT'' TF_1m big_example)))"
    then have "\<forall>x \<in> set (detectSupplyDemandSignals big_example (detectSupplyDemandZones big_example)).
                 t_timestamp (ema_signal Binance Spot ''BTCUSDT'' TF_1m b)
                 \<le> t_timestamp (sd_signal Binance Spot ''BTCUSDT'' TF_1m x)"
      unfolding eq by simp
    then have "t_timestamp (ema_signal Binance Spot ''BTCUSDT'' TF_1m b)
               \<le> t_timestamp (sd_signal Binance Spot ''BTCUSDT'' TF_1m s)"
      using s(1) by blast
    then show False by (simp add: ema_signal_def sd_signal_def b(2) s(2))
  qed
  then show ?thesis using big_example_ascending by simp
qed

text \<open>
  Claim C3, amended. \<open>allSignals\<close> is the list of bounce signals followed by the list
  of zone signals, each in the order its detector emitted it; nothing sorts the merged
  list. Each of the two parts is ordered by time stamp when the candles are ordered by
  close time. The id of every element is \<open>ema_\<close> or \<open>sd_\<close>, according to its strategy,
  followed by its time stamp in decimal.
\<close>

theorem C3_allSignals:
  "r_allSignals (analyzeData now1 now2 ex tt symbol tf klineData) =
     map (ema_signal ex tt symbol tf)
         (r_emaBounceSignals (analyzeData now1 now2 ex tt symbol tf klineData)) @
     map (sd_signal ex tt symbol tf)
         (r_supplyDemandSignals (analyzeData now1 now2 ex tt symbol tf klineData)) \<and>
   (\<forall>t \<in> set (r_allSignals (analyzeData now1 now2 ex tt symbol tf klineData)).
      t_id t = (case t_strategy t of Ema_bounce \<Rightarrow> ''ema_'' | Supply_demand \<Rightarrow> ''sd_'')
               @ string_of_int (t_timestamp t)) \<and>
   (sorted (map k_closeTime klineData) \<longrightarrow>
      sorted (map b_timestamp (r_emaBounceSignals (analyzeData now1 now2 ex tt symbol tf klineData))) \<and>
      sorted (map s_timestamp (r_supplyDemandSignals (analyzeData now1 now2 ex tt symbol tf klineData))))"
proof -
  have a: "r_allSignals (analyzeData now1 now2 ex tt symbol tf klineData) =
     map (ema_signal ex tt symbol tf)
         (r_emaBounceSignals (analyzeData now1 now2 ex tt symbol tf klineData)) @
     map (sd_signal ex tt symbol tf)
         (r_supplyDemandSignals (analyzeData now1 now2 ex tt symbol tf klineData))"
    by (simp add: analyzeData_def Let_def)
  have b: "t_id t = (case t_strategy t of Ema_bounce \<Rightarrow> ''ema_'' | Supply_demand \<Rightarrow> ''sd_'')
               @ string_of_int (t_timestamp t)"
    if "t \<in> set (r_allSignals (analyzeData now1 now2 ex tt symbol tf klineData))" for t
    using that unfolding a by (auto simp: ema_signal_def sd_signal_def)
  have c: "sorted (map b_timestamp (r_emaBounceSignals (analyzeData now1 now2 ex tt symbol tf klineData))) \<and>
      sorted (map s_timestamp (r_supplyDemandSignals (analyzeData now1 now2 ex tt symbol tf klineData)))"
    if "sorted (map k_closeTime klineData)"
    using that
    by (simp add: analyzeData_def Let_def detectEMABounceSignal_sorted detectSupplyDemandSignals_sorted)
  show ?thesis using a b c by blast
qed

theorem C3_allSignals_witness:
  "sd_signal Binance Spot ''BTCUSDT'' TF_1m (hd (zone_signal (cndl 3 110 127 110 127 1) zone_A))
     \<in> set (r_allSignals (analyzeData (clock_at 0) (clock_at 0) Binance Spot ''BTCUSDT'' TF_1m zone_example)) \<and>
   t_id (sd_signal Binance Spot ''BTCUSDT'' TF_1m (hd (zone_signal (cndl 3 110 127 110 127 1) zone_A)))
     = ''sd_239999'' \<and>
   sorted (map k_closeTime zone_example) \<and>
   sorted (map b_timestamp
     (r_emaBounceSignals (analyzeData (clock_at 0) (clock_at 0) Binance Spot ''BTCUSDT'' TF_1m zone_example))) \<and>
   sorted (map s_timestamp
     (r_supplyDemandSignals (analyzeData (clock_at 0) (clock_at 0) Binance Spot ''BTCUSDT'' TF_1m zone_example)))"
proof -
  let ?t = "sd_signal Binance Spot ''BTCUSDT'' TF_1m (hd (zone_signal (cndl 3 110 127 110 127 1) zone_A))"
  have m: "?t \<in> set (r_allSignals (analyzeData (clock_at 0) (clock_at 0) Binance Spot ''BTCUSDT'' TF_1m zone_example))"
    using zone_example_signal by (simp add: analyzeData_def Let_def)
  have srt: "sorted (map k_closeTime zone_example)"
    by (simp add: zone_example_def cndl_def)
  have v: "t_strategy ?t = Supply_demand" "t_timestamp ?t = 239999"
    by (simp_all add: sd_signal_def zone_signal_def zone_A_def cndl_def Let_def)
  from C3_allSignals[of "clock_at 0" "clock_at 0" Binance Spot "''BTCUSDT''" TF_1m zone_example] m srt
  have "t_id ?t = (case t_strategy ?t of Ema_bounce \<Rightarrow> ''ema_'' | Supply_demand \<Rightarrow> ''sd_'')
               @ string_of_int (t_timestamp ?t)"
    and s: "sorted (map b_timestamp
     (r_emaBounceSignals (analyzeData (clock_at 0) (clock_at 0) Binance Spot ''BTCUSDT'' TF_1m zone_example)))"
     "sorted (map s_timestamp
     (r_supplyDemandSignals (analyzeData (clock_at 0) (clock_at 0) Binance Spot ''BTCUSDT'' TF_1m zone_example)))"
    by blast+
  then have "t_id ?t = ''sd_239999''"
    unfolding v by (simp add: string_of_int_def digit_char_def)
  then show ?thesis using m srt s by blast
qed

end
